theory Spec2Isabelle
  imports Complex_Main
begin

section \<open>The robotic arm orchestrator (arm\_system/main.py)\<close>

text \<open>
  A shallow embedding of class \<open>Robot\<close>. The object's attributes are a record that every
  method takes and returns. What the hardware and the user contribute (detection events,
  confirmations, clock readings, typed input) is passed to the methods as explicit
  arguments. Python numbers are modelled as reals; rendered log and console lines are
  modelled by a datatype of messages carrying the values that the source formats into them.
  The transport delivers detection events from its own thread. The model delivers them at
  the points of the control thread where a delivery makes a difference: at the menu
  prompt, during the wait for the end of the scan, and, while the handler is still
  registered after that wait, during and after the finalization of the catalog.
\<close>

subsection \<open>Strings\<close>

text \<open>
  \<open>str.lower\<close> on the ASCII range. The keys of the zone table are ASCII letters that no
  character outside the ASCII range lower-cases to, so the lookup only depends on this
  part of \<open>str.lower\<close>.
\<close>

definition ascii_uppercase :: string where
  "ascii_uppercase = ''ABCDEFGHIJKLMNOPQRSTUVWXYZ''"

definition ascii_lowercase :: string where
  "ascii_lowercase = ''abcdefghijklmnopqrstuvwxyz''"

definition lower_char :: "char \<Rightarrow> char" where
  "lower_char c = (case map_of (zip ascii_uppercase ascii_lowercase) c of
                     None \<Rightarrow> c | Some d \<Rightarrow> d)"

definition lower :: "string \<Rightarrow> string" where
  "lower s = map lower_char s"

subsection \<open>Data exchanged with the transport\<close>

record polar =
  angle :: real
  distance :: real

text \<open>
  The dictionary a detection message carries. A field is \<open>None\<close> when its key is absent
  (for \<open>class\<close> also when the value is null): the source reads every field with
  \<open>dict.get\<close>.
\<close>

record detection_event =
  ev_class :: "string option"
  ev_angle :: "real option"
  ev_distance :: "real option"
  ev_confidence :: "real option"
  ev_image_path :: "string option"

record move =
  joint :: string
  move_angle :: "real option"
  move_distance :: "real option"
  action :: "string option"
  speed :: "real option"

datatype payload = No_payload | Scan_speed real | Step move

datatype confirmation = Completed | Failed | Timed_out

text \<open>
  One iteration of the safety polling loop as the world presents it: the value of
  \<open>time.time() - start_time\<close> that the loop test reads, and the safety state that the
  transport has written since the previous iteration, if it has written one.
\<close>

record tick =
  elapsed :: real
  safety_update :: "string option"

subsection \<open>Exceptions and outcomes\<close>

datatype exc =
    KeyError string
  | EOFError
  | Movement_failed string
  | SystemExit int

fun is_Exception :: "exc \<Rightarrow> bool" where
  "is_Exception (SystemExit _) = False"
| "is_Exception _ = True"

text \<open>
  A call returns a value, raises, or is still inside the safety polling loop when the
  supplied clock readings run out.
\<close>

datatype 'a outcome = Return 'a | Raise exc | Still_polling

subsection \<open>Log records and console lines\<close>

datatype level = INFO | WARNING | ERROR

datatype message =
    Connected_to_brain
  | Closing_serial_connection
  | Scanning_in_progress
  | Scanning_timeout
  | Scanning_without_detection
  | Error_updating_registry exc
  | Objects_scanned nat
  | Object_summary int real real string real
  | Scan_environment_first
  | Init_pick_place int
  | Angle_of real
  | Distance_of real
  | Pick_completed
  | Pick_and_place_completed
  | Error_in_pick_sequence exc
  | Error_in_place_sequence exc
  | Execution_movements
  | Movement string
  | Movement_completed string
  | Error_in_movement exc
  | Executing_security_protocol
  | System_safety
  | Error_in_safety_service
  | Main_menu
  | Command_unrecognized
  | Objects_detected_list
  | Object_line int real real string real
  | Cancel_option
  | Operation_canceled
  | Invalid_input

subsection \<open>The robot's state\<close>

record detection =
  det_class :: string
  det_confidence :: real
  det_image :: string

record provisional =
  position :: polar
  detection :: detection
  prov_zone :: polar

record scanned_object =
  index :: int
  center_angle :: real
  obj_distance :: real
  obj_class :: string
  obj_confidence :: real
  placement_zone :: polar

text \<open>
  \<open>scan_results\<close> holds dictionaries of two shapes: the records appended by the scan
  callback, and the items that \<open>process_scan_results\<close> replaces them with.
\<close>

datatype entry = Provisional provisional | Item scanned_object

datatype callback = Scan_callback

record transport =
  sent :: "(string \<times> payload) list"
  callbacks :: "string \<rightharpoonup> callback"
  movement_status :: "string \<rightharpoonup> string"
  safety_status :: "string \<rightharpoonup> string"
  scan_complete_event :: bool
  close_calls :: nat

record robot =
  serial_manager :: transport
  scan_results :: "entry list"
  placement_zones :: "string \<rightharpoonup> polar"
  logged :: "(level \<times> message) list"
  printed :: "message list"

text \<open>
  Sequencing: the rest of a method runs only when the call before it returned; an
  exception or an exit propagates with the state reached.
\<close>

definition bind ::
  "'a outcome \<times> robot \<Rightarrow> ('a \<Rightarrow> robot \<Rightarrow> 'b outcome \<times> robot) \<Rightarrow> 'b outcome \<times> robot"
where
  "bind m f =
     (case m of
        (Return x, r) \<Rightarrow> f x r
      | (Raise e, r) \<Rightarrow> (Raise e, r)
      | (Still_polling, r) \<Rightarrow> (Still_polling, r))"

subsection \<open>The transport\<close>

text \<open>
  Modelled from the spec: \<open>CommunicationManager.send_message\<close> (module
  communication.serial\_manager is not among the sources). An outbound command is a
  service tag with a payload; the model records the commands in the order sent.
\<close>

definition send_message :: "string \<Rightarrow> payload \<Rightarrow> robot \<Rightarrow> robot" where
  "send_message tag p r =
     r\<lparr>serial_manager := (serial_manager r)\<lparr>sent := sent (serial_manager r) @ [(tag, p)]\<rparr>\<rparr>"

text \<open>
  Modelled from the spec: \<open>CommunicationManager.register_callback\<close>. The detection
  subscription is a handler registered under a service name; registering \<open>None\<close>
  removes it.
\<close>

definition register_callback :: "string \<Rightarrow> callback option \<Rightarrow> robot \<Rightarrow> robot" where
  "register_callback name cb r =
     r\<lparr>serial_manager :=
         (serial_manager r)\<lparr>callbacks := (callbacks (serial_manager r))(name := cb)\<rparr>\<rparr>"

text \<open>
  Modelled from the spec: \<open>CommunicationManager.wait_for_confirmation\<close>. The wait ends
  when the joint's status becomes completed or failed, or when the per-step timeout
  elapses; it answers true only for completed. The confirmation is what the hardware
  delivers for this step.
\<close>

definition wait_for_confirmation :: "string \<Rightarrow> confirmation \<Rightarrow> robot \<Rightarrow> bool \<times> robot" where
  "wait_for_confirmation j c r =
     (case c of
        Completed \<Rightarrow>
          (True, r\<lparr>serial_manager := (serial_manager r)
                    \<lparr>movement_status := (movement_status (serial_manager r))(j \<mapsto> ''completed'')\<rparr>\<rparr>)
      | Failed \<Rightarrow>
          (False, r\<lparr>serial_manager := (serial_manager r)
                    \<lparr>movement_status := (movement_status (serial_manager r))(j \<mapsto> ''failed'')\<rparr>\<rparr>)
      | Timed_out \<Rightarrow> (False, r))"

text \<open>
  Modelled from the spec: \<open>CommunicationManager.close\<close>. The model counts the calls.
\<close>

definition close :: "robot \<Rightarrow> robot" where
  "close r = r\<lparr>serial_manager := (serial_manager r)
                 \<lparr>close_calls := Suc (close_calls (serial_manager r))\<rparr>\<rparr>"

text \<open>
  Modelled from the spec: the safety-status delivery of the transport, which writes the
  state it receives into \<open>safety_status\<close>.
\<close>

definition deliver_safety :: "string option \<Rightarrow> robot \<Rightarrow> robot" where
  "deliver_safety u r =
     (case u of
        None \<Rightarrow> r
      | Some s \<Rightarrow> r\<lparr>serial_manager := (serial_manager r)
                    \<lparr>safety_status := (safety_status (serial_manager r))(''state'' \<mapsto> s)\<rparr>\<rparr>)"

text \<open>
  Modelled from the spec: a \<open>CommunicationManager\<close> as constructed, with nothing sent,
  no handler registered and the safety state idle.
\<close>

definition fresh_transport :: transport where
  "fresh_transport =
     \<lparr>sent = [], callbacks = Map.empty, movement_status = Map.empty,
      safety_status = [''state'' \<mapsto> ''idle''], scan_complete_event = False,
      close_calls = 0\<rparr>"

subsection \<open>Logging and printing\<close>

definition log_record :: "level \<Rightarrow> message \<Rightarrow> robot \<Rightarrow> robot" where
  "log_record l m r = r\<lparr>logged := logged r @ [(l, m)]\<rparr>"

definition print :: "message \<Rightarrow> robot \<Rightarrow> robot" where
  "print m r = r\<lparr>printed := printed r @ [m]\<rparr>"

subsection \<open>Construction\<close>

definition configured_zones :: "string \<rightharpoonup> polar" where
  "configured_zones = map_of
     [(''apple'', \<lparr>angle = 90, distance = 200\<rparr>),
      (''orange'', \<lparr>angle = 180, distance = 200\<rparr>),
      (''bottle'', \<lparr>angle = 45, distance = 200\<rparr>),
      (''default'', \<lparr>angle = 270, distance = 200\<rparr>)]"

text \<open>\<open>Robot.__init__\<close>, given the freshly constructed transport.\<close>

definition robot_init :: "transport \<Rightarrow> robot" where
  "robot_init t =
     register_callback ''scan_service'' (Some Scan_callback)
       \<lparr>serial_manager = t, scan_results = [], placement_zones = configured_zones,
        logged = [], printed = []\<rparr>"

subsection \<open>Scanning\<close>

definition get_placement_zones :: "robot \<Rightarrow> string \<Rightarrow> exc + polar" where
  "get_placement_zones r object_class =
     (case placement_zones r ''default'' of
        None \<Rightarrow> Inl (KeyError ''default'')
      | Some d \<Rightarrow>
          Inr (case placement_zones r (lower object_class) of None \<Rightarrow> d | Some z \<Rightarrow> z))"

definition get_default :: "'a option \<Rightarrow> 'a \<Rightarrow> 'a" where
  "get_default v d = (case v of None \<Rightarrow> d | Some x \<Rightarrow> x)"

definition make_provisional :: "detection_event \<Rightarrow> polar \<Rightarrow> provisional" where
  "make_provisional data zone =
     \<lparr>position = \<lparr>angle = get_default (ev_angle data) 0,
                   distance = get_default (ev_distance data) 0\<rparr>,
      detection = \<lparr>det_class = get_default (ev_class data) ''default'',
                    det_confidence = get_default (ev_confidence data) 0,
                    det_image = get_default (ev_image_path data) ''''\<rparr>,
      prov_zone = zone\<rparr>"

text \<open>The \<open>try\<close> block catches the \<open>KeyError\<close> of a zone table without a default.\<close>

definition update_object_registry :: "detection_event \<Rightarrow> robot \<Rightarrow> robot" where
  "update_object_registry data r =
     (case get_placement_zones r (get_default (ev_class data) ''default'') of
        Inl e \<Rightarrow> log_record ERROR (Error_updating_registry e) r
      | Inr zone \<Rightarrow>
          r\<lparr>scan_results := scan_results r @ [Provisional (make_provisional data zone)]\<rparr>)"

text \<open>The truth value of \<open>data.get('class')\<close>: absent, null and the empty string are false.\<close>

definition has_class :: "detection_event \<Rightarrow> bool" where
  "has_class data = (case ev_class data of None \<Rightarrow> False | Some c \<Rightarrow> c \<noteq> [])"

definition scan_callback :: "detection_event \<Rightarrow> robot \<Rightarrow> robot" where
  "scan_callback data r = (if has_class data then update_object_registry data r else r)"

text \<open>
  Modelled from the spec: the transport hands an incoming detection event to the handler
  registered for \<open>scan_service\<close>, and drops it when there is none.
\<close>

definition deliver_detection :: "detection_event \<Rightarrow> robot \<Rightarrow> robot" where
  "deliver_detection data r =
     (case callbacks (serial_manager r) ''scan_service'' of
        None \<Rightarrow> r
      | Some Scan_callback \<Rightarrow> scan_callback data r)"

definition deliver_detections :: "detection_event list \<Rightarrow> robot \<Rightarrow> robot" where
  "deliver_detections events r = foldl (\<lambda>s data. deliver_detection data s) r events"

text \<open>The loop of \<open>process_scan_results\<close>; reading \<open>obj['position']\<close> of an item raises.\<close>

definition make_item :: "int \<Rightarrow> provisional \<Rightarrow> scanned_object" where
  "make_item i obj =
     \<lparr>index = i,
      center_angle = angle (position obj),
      obj_distance = distance (position obj),
      obj_class = det_class (detection obj),
      obj_confidence = det_confidence (detection obj),
      placement_zone = prov_zone obj\<rparr>"

definition summary :: "scanned_object \<Rightarrow> message" where
  "summary item =
     Object_summary (index item) (center_angle item) (obj_distance item) (obj_class item)
       (obj_confidence item)"

fun process_loop ::
  "int \<Rightarrow> entry list \<Rightarrow> scanned_object list \<Rightarrow> robot \<Rightarrow> scanned_object list outcome \<times> robot"
where
  "process_loop i [] processed_list r = (Return processed_list, r)"
| "process_loop i (Item x # objs) processed_list r = (Raise (KeyError ''position''), r)"
| "process_loop i (Provisional obj # objs) processed_list r =
     process_loop (i + 1) objs (processed_list @ [make_item i obj])
       (log_record INFO (summary (make_item i obj)) r)"

text \<open>
  The detection events that the transport delivers after the wait for the end of the scan
  has returned, while the handler is still registered: those that arrive while the loop
  of \<open>process_scan_results\<close> has not yet read the last record of the list (the loop
  iterates over the list itself, so it reads them too), those that arrive after that and
  before line 131 stores the processed list, and those that arrive after
  \<open>process_scan_results\<close> (or the logging of the timeout) and before line 76 removes the
  handler.
\<close>

record late_deliveries =
  during_loop :: "detection_event list"
  after_loop :: "detection_event list"
  before_unsubscribe :: "detection_event list"

definition nothing_late :: late_deliveries where
  "nothing_late = \<lparr>during_loop = [], after_loop = [], before_unsubscribe = []\<rparr>"

text \<open>
  \<open>process_scan_results\<close> with the deliveries that happen while it runs. With an empty
  list it returns after the warning, and what arrives then is appended by the callback and
  stays. Otherwise the records appended after the loop are lost when line 131 replaces
  the list.
\<close>

definition process_scan_results ::
  "detection_event list \<Rightarrow> detection_event list \<Rightarrow> robot \<Rightarrow> unit outcome \<times> robot"
where
  "process_scan_results read_by_loop after_the_loop r =
     (if scan_results r = [] then
        (Return (), deliver_detections (read_by_loop @ after_the_loop)
                      (log_record WARNING Scanning_without_detection r))
      else
        (let r1 = deliver_detections read_by_loop
                    (log_record INFO (Objects_scanned (length (scan_results r))) r)
         in bind (process_loop 1 (scan_results r1) [] r1)
              (\<lambda>processed_list r2.
                 (Return (), (deliver_detections after_the_loop r2)
                               \<lparr>scan_results := map Item processed_list\<rparr>))))"

text \<open>
  Modelled from the spec: \<open>scan_complete_event.wait(timeout=60)\<close>. While the control
  thread waits, the transport delivers the detection events of the sweep; the event is set
  when the scan-complete signal arrives within the 60 time-units.
\<close>

definition wait_scan_complete :: "detection_event list \<Rightarrow> bool \<Rightarrow> robot \<Rightarrow> bool \<times> robot" where
  "wait_scan_complete events signalled r =
     (let r' = deliver_detections events r;
          flag = (scan_complete_event (serial_manager r') \<or> signalled)
      in (flag, r'\<lparr>serial_manager := (serial_manager r')\<lparr>scan_complete_event := flag\<rparr>\<rparr>))"

definition clear_scan_complete :: "robot \<Rightarrow> robot" where
  "clear_scan_complete r =
     r\<lparr>serial_manager := (serial_manager r)\<lparr>scan_complete_event := False\<rparr>\<rparr>"

text \<open>Lines 63 to 68 of \<open>handle_scan_command\<close>: the start of the scan window.\<close>

definition begin_scan :: "robot \<Rightarrow> robot" where
  "begin_scan r =
     (let r1 = r\<lparr>scan_results := []\<rparr>;
          r2 = register_callback ''scan_service'' (Some Scan_callback) r1;
          r3 = send_message ''scan_service'' (Scan_speed 20) r2
      in log_record INFO Scanning_in_progress r3)"

text \<open>
  \<open>events\<close> are the detection events delivered from the registration of line 64 until the
  wait returns (until line 106 tests the list, when the scan completes), \<open>signalled\<close> tells
  whether the scan-complete signal arrives within the timeout, and \<open>late\<close> are the events
  delivered from then on until line 76 removes the handler. Nothing in the code keeps the
  transport from delivering an event at any of these moments.
\<close>

definition handle_scan_command ::
  "detection_event list \<Rightarrow> bool \<Rightarrow> late_deliveries \<Rightarrow> robot \<Rightarrow> unit outcome \<times> robot"
where
  "handle_scan_command events signalled late r =
     (let (completed, r5) = wait_scan_complete events signalled (begin_scan r)
      in bind (if completed
               then process_scan_results (during_loop late) (after_loop late)
                      (clear_scan_complete r5)
               else (Return (), log_record ERROR Scanning_timeout r5))
           (\<lambda>u r6. (Return (), register_callback ''scan_service'' None
                                  (deliver_detections (before_unsubscribe late) r6))))"

subsection \<open>Movement\<close>

text \<open>
  The polling loop of \<open>handle_movement_failure\<close>, one clock reading per iteration. The
  transport's write, when there is one, lands before the reading.
\<close>

fun safety_loop :: "tick list \<Rightarrow> robot \<Rightarrow> unit outcome \<times> robot" where
  "safety_loop [] r = (Still_polling, r)"
| "safety_loop (t # ts) r =
     (let r1 = deliver_safety (safety_update t) r
      in if elapsed t < 15 then
           (if safety_status (serial_manager r1) ''state'' = Some ''completed''
            then (Return (), log_record INFO System_safety r1)
            else safety_loop ts r1)
         else (Raise (SystemExit 1), close (log_record ERROR Error_in_safety_service r1)))"

definition handle_movement_failure :: "tick list \<Rightarrow> robot \<Rightarrow> unit outcome \<times> robot" where
  "handle_movement_failure ticks r =
     safety_loop ticks
       (send_message ''safety_service'' No_payload
          (log_record ERROR Executing_security_protocol r))"

definition reset_state :: "string \<Rightarrow> robot \<Rightarrow> robot" where
  "reset_state j r =
     r\<lparr>serial_manager := (serial_manager r)
         \<lparr>movement_status := (movement_status (serial_manager r))(j \<mapsto> ''pending'')\<rparr>\<rparr>"

text \<open>
  The loop of \<open>execute_movement\<close>. \<open>conf i\<close> is the confirmation that the hardware gives
  to the step at position \<open>i\<close> of the plan (counted from 0).
\<close>

fun movement_loop ::
  "nat \<Rightarrow> (nat \<Rightarrow> confirmation) \<Rightarrow> tick list \<Rightarrow> string \<Rightarrow> move list \<Rightarrow> robot
     \<Rightarrow> unit outcome \<times> robot"
where
  "movement_loop i conf ticks message_type [] r = (Return (), r)"
| "movement_loop i conf ticks message_type (mv # moves) r =
     (let r1 = log_record INFO (Movement (joint mv)) r;
          r2 = reset_state (joint mv) r1;
          r3 = send_message message_type (Step mv) r2;
          (confirmed, r4) = wait_for_confirmation (joint mv) (conf i) r3
      in if confirmed
         then movement_loop (Suc i) conf ticks message_type moves
                (log_record INFO (Movement_completed (joint mv)) r4)
         else bind (handle_movement_failure ticks
                      (log_record ERROR (Error_in_movement (Movement_failed (joint mv))) r4))
                (\<lambda>u r5. (Raise (Movement_failed (joint mv)), r5)))"

definition execute_movement ::
  "(nat \<Rightarrow> confirmation) \<Rightarrow> tick list \<Rightarrow> string \<Rightarrow> move list \<Rightarrow> robot \<Rightarrow> unit outcome \<times> robot"
where
  "execute_movement conf ticks message_type movement_sequence r =
     movement_loop 0 conf ticks message_type movement_sequence
       (log_record INFO Execution_movements r)"

subsection \<open>Pick and place\<close>

definition pick_plan :: "scanned_object \<Rightarrow> move list" where
  "pick_plan target_object =
     [\<lparr>joint = ''base'', move_angle = Some (center_angle target_object), move_distance = None,
       action = None, speed = Some 30\<rparr>,
      \<lparr>joint = ''arm'', move_angle = None, move_distance = Some (obj_distance target_object),
       action = Some ''pick'', speed = None\<rparr>,
      \<lparr>joint = ''gripper'', move_angle = None, move_distance = None,
       action = Some ''close'', speed = None\<rparr>,
      \<lparr>joint = ''arm'', move_angle = None, move_distance = Some (obj_distance target_object),
       action = Some ''up'', speed = None\<rparr>]"

definition place_plan :: "scanned_object \<Rightarrow> move list" where
  "place_plan target_object =
     [\<lparr>joint = ''base'', move_angle = Some (angle (placement_zone target_object)),
       move_distance = None, action = None, speed = Some 30\<rparr>,
      \<lparr>joint = ''arm'', move_angle = None,
       move_distance = Some (distance (placement_zone target_object)),
       action = Some ''place'', speed = None\<rparr>,
      \<lparr>joint = ''gripper'', move_angle = None, move_distance = None,
       action = Some ''open'', speed = None\<rparr>,
      \<lparr>joint = ''arm'', move_angle = None, move_distance = Some (obj_distance target_object),
       action = Some ''up'', speed = None\<rparr>,
      \<lparr>joint = ''base'', move_angle = Some 0, move_distance = None,
       action = None, speed = Some 60\<rparr>]"

text \<open>
  \<open>try: ... except Exception\<close>: an exception of class \<open>Exception\<close> is logged and turned
  into the answer false; \<open>SystemExit\<close> is not of that class and passes through.
\<close>

definition catch_Exception ::
  "(exc \<Rightarrow> message) \<Rightarrow> unit outcome \<times> robot \<Rightarrow> bool outcome \<times> robot"
where
  "catch_Exception describe m =
     (case m of
        (Return u, r) \<Rightarrow> (Return True, r)
      | (Raise e, r) \<Rightarrow>
          (if is_Exception e then (Return False, log_record ERROR (describe e) r)
           else (Raise e, r))
      | (Still_polling, r) \<Rightarrow> (Still_polling, r))"

definition execute_pick_sequence ::
  "(nat \<Rightarrow> confirmation) \<Rightarrow> tick list \<Rightarrow> scanned_object \<Rightarrow> robot \<Rightarrow> bool outcome \<times> robot"
where
  "execute_pick_sequence conf ticks target_object r =
     catch_Exception Error_in_pick_sequence
       (execute_movement conf ticks ''pick_service'' (pick_plan target_object) r)"

definition execute_place_sequence ::
  "(nat \<Rightarrow> confirmation) \<Rightarrow> tick list \<Rightarrow> scanned_object \<Rightarrow> robot \<Rightarrow> bool outcome \<times> robot"
where
  "execute_place_sequence conf ticks target_object r =
     catch_Exception Error_in_place_sequence
       (execute_movement conf ticks ''place_service'' (place_plan target_object) r)"

text \<open>The listing loop of \<open>select_object_interactively\<close>; it reads \<open>o['index']\<close>.\<close>

fun print_objects :: "entry list \<Rightarrow> robot \<Rightarrow> unit outcome \<times> robot" where
  "print_objects [] r = (Return (), r)"
| "print_objects (Provisional p # objs) r = (Raise (KeyError ''index''), r)"
| "print_objects (Item x # objs) r =
     print_objects objs
       (print (Object_line (index x) (center_angle x) (obj_distance x) (obj_class x)
                 (obj_confidence x)) r)"

text \<open>
  \<open>next((x for x in self.scan_results if x['index'] == selection), {})\<close>; the empty
  dictionary is \<open>None\<close>.
\<close>

fun next_with_index :: "int \<Rightarrow> entry list \<Rightarrow> scanned_object option outcome" where
  "next_with_index selection [] = Return None"
| "next_with_index selection (Provisional p # objs) = Raise (KeyError ''index'')"
| "next_with_index selection (Item x # objs) =
     (if index x = selection then Return (Some x) else next_with_index selection objs)"

text \<open>
  \<open>typed\<close> is the result of \<open>int(input(...))\<close>: the number typed, or \<open>None\<close> when
  \<open>int\<close> raises \<open>ValueError\<close>.
\<close>

definition select_object_interactively ::
  "int option \<Rightarrow> robot \<Rightarrow> scanned_object option outcome \<times> robot"
where
  "select_object_interactively typed r =
     bind (print_objects (scan_results r) (print Objects_detected_list r))
       (\<lambda>u r1.
          let r2 = print Cancel_option r1
          in (case typed of
                None \<Rightarrow> (Return None, print Invalid_input r2)
              | Some selection \<Rightarrow>
                  if selection = 0 then (Return None, print Operation_canceled r2)
                  else (next_with_index selection (scan_results r2), r2)))"

definition handle_pick_place_command ::
  "int option \<Rightarrow> (nat \<Rightarrow> confirmation) \<Rightarrow> (nat \<Rightarrow> confirmation) \<Rightarrow> tick list \<Rightarrow> robot
     \<Rightarrow> unit outcome \<times> robot"
where
  "handle_pick_place_command typed pick_conf place_conf ticks r =
     (if scan_results r = [] then (Return (), log_record WARNING Scan_environment_first r)
      else
        bind (select_object_interactively typed r)
          (\<lambda>selected r1.
             case selected of
               None \<Rightarrow> (Return (), r1)
             | Some selected_object \<Rightarrow>
                 bind (execute_pick_sequence pick_conf ticks selected_object
                         (log_record INFO (Distance_of (obj_distance selected_object))
                            (log_record INFO (Angle_of (center_angle selected_object))
                               (log_record INFO (Init_pick_place (index selected_object)) r1))))
                   (\<lambda>picked r2.
                      if picked then
                        bind (execute_place_sequence place_conf ticks selected_object
                                (log_record INFO Pick_completed r2))
                          (\<lambda>placed r3.
                             if placed then (Return (), log_record INFO Pick_and_place_completed r3)
                             else (Return (), r3))
                      else (Return (), r2))))"

subsection \<open>The menu and the program\<close>

text \<open>
  What the world supplies to one iteration of the menu loop: the detection events that
  arrive while the loop waits at the prompt, the line typed there after
  \<open>strip().lower()\<close>, and what the command then meets.
\<close>

record world =
  idle_detections :: "detection_event list"
  command :: string
  detections :: "detection_event list"
  scan_signalled :: bool
  late_arrivals :: late_deliveries
  typed_selection :: "int option"
  pick_confirmations :: "nat \<Rightarrow> confirmation"
  place_confirmations :: "nat \<Rightarrow> confirmation"
  safety_ticks :: "tick list"

text \<open>When the typed lines run out, \<open>input\<close> raises \<open>EOFError\<close>.\<close>

fun main_menu_loop :: "world list \<Rightarrow> robot \<Rightarrow> unit outcome \<times> robot" where
  "main_menu_loop [] r = (Raise EOFError, print Main_menu r)"
| "main_menu_loop (w # ws) r =
     (let r0 = deliver_detections (idle_detections w) (print Main_menu r)
      in if command w = ''c'' then
           main_menu_loop ws (send_message ''check_service'' No_payload r0)
         else if command w = ''s'' then
           main_menu_loop ws (send_message ''safety_service'' No_payload r0)
         else if command w = ''n'' then
           bind (handle_scan_command (detections w) (scan_signalled w) (late_arrivals w) r0)
             (\<lambda>u r1. main_menu_loop ws r1)
         else if command w = ''p'' then
           bind (handle_pick_place_command (typed_selection w) (pick_confirmations w)
                   (place_confirmations w) (safety_ticks w) r0)
             (\<lambda>u r1. main_menu_loop ws r1)
         else if command w = ''q'' then (Return (), r0)
         else main_menu_loop ws (print Command_unrecognized r0))"

text \<open>
  \<open>run\<close>: the \<open>finally\<close> clause runs however the loop ends, also on \<open>SystemExit\<close>.
  \<open>link_up\<close> is the answer of \<open>serial_manager.connect()\<close>.
\<close>

definition run :: "bool \<Rightarrow> world list \<Rightarrow> robot \<Rightarrow> unit outcome \<times> robot" where
  "run link_up ws r =
     (case (if link_up then main_menu_loop ws (log_record INFO Connected_to_brain r)
            else (Return (), r)) of
        (Still_polling, r') \<Rightarrow> (Still_polling, r')
      | (out, r') \<Rightarrow> (out, close (log_record INFO Closing_serial_connection r')))"

subsection \<open>The records of a scan window\<close>

text \<open>
  For a zone table with a default entry: the records that the scan callback appends for a
  list of delivered events, the items that the finalizing loop makes of a list of records,
  and the events of a completed scan that are numbered: with a classified event delivered
  during the wait, the classified events delivered during the wait or read by the loop.
\<close>

definition default_zone :: "(string \<rightharpoonup> polar) \<Rightarrow> polar" where
  "default_zone zones =
     (case zones ''default'' of None \<Rightarrow> \<lparr>angle = 0, distance = 0\<rparr> | Some d \<Rightarrow> d)"

definition zone_in :: "(string \<rightharpoonup> polar) \<Rightarrow> string \<Rightarrow> polar" where
  "zone_in zones c = (case zones (lower c) of None \<Rightarrow> default_zone zones | Some z \<Rightarrow> z)"

definition recorded :: "(string \<rightharpoonup> polar) \<Rightarrow> detection_event list \<Rightarrow> provisional list" where
  "recorded zones events =
     map (\<lambda>e. make_provisional e (zone_in zones (get_default (ev_class e) ''default'')))
       (filter has_class events)"

definition numbered :: "provisional list \<Rightarrow> scanned_object list" where
  "numbered objs = map (\<lambda>(i, obj). make_item i obj) (zip [1..int (length objs)] objs)"


subsection \<open>The safety deadline in the words of the specification\<close>

text \<open>
  The safety status that a poll reads is the status at the start with the transport's
  writes up to that poll applied.
\<close>

definition apply_update :: "(string \<rightharpoonup> string) \<Rightarrow> tick \<Rightarrow> (string \<rightharpoonup> string)" where
  "apply_update st t = (case safety_update t of None \<Rightarrow> st | Some v \<Rightarrow> st(''state'' \<mapsto> v))"

definition safety_after :: "(string \<rightharpoonup> string) \<Rightarrow> tick list \<Rightarrow> (string \<rightharpoonup> string)" where
  "safety_after st ticks = foldl apply_update st ticks"

text \<open>
  A completed safety status is observed strictly before the deadline: some poll reads
  completed, and the clock read less than 15 at that poll and at every poll before it.
  The deadline is read when some clock reading is 15 or more.
\<close>

definition completed_before_deadline :: "(string \<rightharpoonup> string) \<Rightarrow> tick list \<Rightarrow> bool" where
  "completed_before_deadline st ticks =
     (\<exists>i < length ticks. (\<forall>j \<le> i. elapsed (ticks ! j) < 15)
        \<and> safety_after st (take (Suc i) ticks) ''state'' = Some ''completed'')"

definition deadline_read :: "tick list \<Rightarrow> bool" where
  "deadline_read ticks = (\<exists>t \<in> set ticks. 15 \<le> elapsed t)"

subsection \<open>Process exit\<close>

text \<open>
  The outcome is an exit of the process; and, for a call started with \<open>c\<close> calls of
  \<open>close\<close> made before it, the call has closed the transport once more if it exits and
  not at all otherwise.
\<close>

definition exits :: "'a outcome \<Rightarrow> bool" where
  "exits out = (case out of Raise (SystemExit n) \<Rightarrow> True | _ \<Rightarrow> False)"

definition exit_closes :: "nat \<Rightarrow> 'a outcome \<times> robot \<Rightarrow> bool" where
  "exit_closes c m =
     (close_calls (serial_manager (snd m)) = (if exits (fst m) then Suc c else c))"

subsection \<open>Scenarios\<close>

text \<open>
  The scan of the specification's scenario A: an apple, an event without a class and an
  object of an unmapped class; the robot after that scan has completed, and after it has
  timed out instead.
\<close>

definition scenario_events :: "detection_event list" where
  "scenario_events =
     [\<lparr>ev_class = Some ''apple'', ev_angle = Some 10, ev_distance = Some 100,
       ev_confidence = Some 1, ev_image_path = None\<rparr>,
      \<lparr>ev_class = None, ev_angle = Some 15, ev_distance = Some 120,
       ev_confidence = Some 1, ev_image_path = None\<rparr>,
      \<lparr>ev_class = Some ''widget'', ev_angle = Some 20, ev_distance = Some 150,
       ev_confidence = Some 1, ev_image_path = None\<rparr>]"

definition scenario_items :: "scanned_object list" where
  "scenario_items =
     [\<lparr>index = 1, center_angle = 10, obj_distance = 100, obj_class = ''apple'',
       obj_confidence = 1, placement_zone = \<lparr>angle = 90, distance = 200\<rparr>\<rparr>,
      \<lparr>index = 2, center_angle = 20, obj_distance = 150, obj_class = ''widget'',
       obj_confidence = 1, placement_zone = \<lparr>angle = 270, distance = 200\<rparr>\<rparr>]"

definition scenario_robot :: robot where
  "scenario_robot =
     snd (handle_scan_command scenario_events True nothing_late (robot_init fresh_transport))"

definition timed_out_robot :: robot where
  "timed_out_robot =
     snd (handle_scan_command scenario_events False nothing_late (robot_init fresh_transport))"



text \<open>
  The hardware of scenarios C and D: the third step of a plan, the closing of the gripper
  in a pick plan, is never confirmed; the safety status becomes completed at time 10, or
  never.
\<close>

definition always_confirms :: "nat \<Rightarrow> confirmation" where
  "always_confirms i = Completed"

definition gripper_never_confirms :: "nat \<Rightarrow> confirmation" where
  "gripper_never_confirms i = (if i = 2 then Timed_out else Completed)"

definition recovery_ticks :: "tick list" where
  "recovery_ticks =
     [\<lparr>elapsed = 0, safety_update = None\<rparr>,
      \<lparr>elapsed = 10, safety_update = Some ''completed''\<rparr>]"

definition no_recovery_ticks :: "tick list" where
  "no_recovery_ticks =
     [\<lparr>elapsed = 0, safety_update = None\<rparr>, \<lparr>elapsed = 15, safety_update = None\<rparr>]"

definition fatal_world :: world where
  "fatal_world =
     \<lparr>idle_detections = [], command = ''p'', detections = [], scan_signalled = False,
      late_arrivals = nothing_late, typed_selection = Some 1,
      pick_confirmations = gripper_never_confirms, place_confirmations = always_confirms,
      safety_ticks = no_recovery_ticks\<rparr>"

section \<open>Properties\<close>

subsection \<open>What each primitive step changes\<close>

lemma send_message_frame [simp]:
  "scan_results (send_message tag p r) = scan_results r"
  "placement_zones (send_message tag p r) = placement_zones r"
  "logged (send_message tag p r) = logged r"
  "printed (send_message tag p r) = printed r"
  "callbacks (serial_manager (send_message tag p r)) = callbacks (serial_manager r)"
  "movement_status (serial_manager (send_message tag p r)) = movement_status (serial_manager r)"
  "safety_status (serial_manager (send_message tag p r)) = safety_status (serial_manager r)"
  "scan_complete_event (serial_manager (send_message tag p r)) = scan_complete_event (serial_manager r)"
  "close_calls (serial_manager (send_message tag p r)) = close_calls (serial_manager r)"
  by (simp_all add: send_message_def)

lemma register_callback_frame [simp]:
  "scan_results (register_callback name cb r) = scan_results r"
  "placement_zones (register_callback name cb r) = placement_zones r"
  "logged (register_callback name cb r) = logged r"
  "printed (register_callback name cb r) = printed r"
  "sent (serial_manager (register_callback name cb r)) = sent (serial_manager r)"
  "movement_status (serial_manager (register_callback name cb r)) = movement_status (serial_manager r)"
  "safety_status (serial_manager (register_callback name cb r)) = safety_status (serial_manager r)"
  "scan_complete_event (serial_manager (register_callback name cb r)) = scan_complete_event (serial_manager r)"
  "close_calls (serial_manager (register_callback name cb r)) = close_calls (serial_manager r)"
  by (simp_all add: register_callback_def)

lemma close_frame [simp]:
  "scan_results (close r) = scan_results r"
  "placement_zones (close r) = placement_zones r"
  "logged (close r) = logged r"
  "printed (close r) = printed r"
  "sent (serial_manager (close r)) = sent (serial_manager r)"
  "callbacks (serial_manager (close r)) = callbacks (serial_manager r)"
  "movement_status (serial_manager (close r)) = movement_status (serial_manager r)"
  "safety_status (serial_manager (close r)) = safety_status (serial_manager r)"
  "scan_complete_event (serial_manager (close r)) = scan_complete_event (serial_manager r)"
  by (simp_all add: close_def)

lemma reset_state_frame [simp]:
  "scan_results (reset_state j r) = scan_results r"
  "placement_zones (reset_state j r) = placement_zones r"
  "logged (reset_state j r) = logged r"
  "printed (reset_state j r) = printed r"
  "sent (serial_manager (reset_state j r)) = sent (serial_manager r)"
  "callbacks (serial_manager (reset_state j r)) = callbacks (serial_manager r)"
  "safety_status (serial_manager (reset_state j r)) = safety_status (serial_manager r)"
  "scan_complete_event (serial_manager (reset_state j r)) = scan_complete_event (serial_manager r)"
  "close_calls (serial_manager (reset_state j r)) = close_calls (serial_manager r)"
  by (simp_all add: reset_state_def)

lemma clear_scan_complete_frame [simp]:
  "scan_results (clear_scan_complete r) = scan_results r"
  "placement_zones (clear_scan_complete r) = placement_zones r"
  "logged (clear_scan_complete r) = logged r"
  "printed (clear_scan_complete r) = printed r"
  "sent (serial_manager (clear_scan_complete r)) = sent (serial_manager r)"
  "callbacks (serial_manager (clear_scan_complete r)) = callbacks (serial_manager r)"
  "movement_status (serial_manager (clear_scan_complete r)) = movement_status (serial_manager r)"
  "safety_status (serial_manager (clear_scan_complete r)) = safety_status (serial_manager r)"
  "close_calls (serial_manager (clear_scan_complete r)) = close_calls (serial_manager r)"
  by (simp_all add: clear_scan_complete_def)

lemma deliver_safety_frame [simp]:
  "scan_results (deliver_safety u r) = scan_results r"
  "placement_zones (deliver_safety u r) = placement_zones r"
  "logged (deliver_safety u r) = logged r"
  "printed (deliver_safety u r) = printed r"
  "sent (serial_manager (deliver_safety u r)) = sent (serial_manager r)"
  "callbacks (serial_manager (deliver_safety u r)) = callbacks (serial_manager r)"
  "movement_status (serial_manager (deliver_safety u r)) = movement_status (serial_manager r)"
  "scan_complete_event (serial_manager (deliver_safety u r)) = scan_complete_event (serial_manager r)"
  "close_calls (serial_manager (deliver_safety u r)) = close_calls (serial_manager r)"
  by (simp_all add: deliver_safety_def split: option.splits)

lemma send_message_sent [simp]:
  "sent (serial_manager (send_message tag p r)) = sent (serial_manager r) @ [(tag, p)]"
  by (simp add: send_message_def)

lemma register_callback_callbacks [simp]:
  "callbacks (serial_manager (register_callback name cb r)) =
     (callbacks (serial_manager r))(name := cb)"
  by (simp add: register_callback_def)

lemma close_close_calls [simp]:
  "close_calls (serial_manager (close r)) = Suc (close_calls (serial_manager r))"
  by (simp add: close_def)

lemma reset_state_movement_status [simp]:
  "movement_status (serial_manager (reset_state j r)) =
     (movement_status (serial_manager r))(j \<mapsto> ''pending'')"
  by (simp add: reset_state_def)

lemma clear_scan_complete_event [simp]:
  "scan_complete_event (serial_manager (clear_scan_complete r)) = False"
  by (simp add: clear_scan_complete_def)

lemma deliver_safety_status [simp]:
  "safety_status (serial_manager (deliver_safety None r)) = safety_status (serial_manager r)"
  "safety_status (serial_manager (deliver_safety (Some s) r)) =
     (safety_status (serial_manager r))(''state'' \<mapsto> s)"
  by (simp_all add: deliver_safety_def)

lemma log_record_frame [simp]:
  "serial_manager (log_record l m r) = serial_manager r"
  "scan_results (log_record l m r) = scan_results r"
  "placement_zones (log_record l m r) = placement_zones r"
  "printed (log_record l m r) = printed r"
  "logged (log_record l m r) = logged r @ [(l, m)]"
  by (simp_all add: log_record_def)

lemma print_frame [simp]:
  "serial_manager (print m r) = serial_manager r"
  "scan_results (print m r) = scan_results r"
  "placement_zones (print m r) = placement_zones r"
  "logged (print m r) = logged r"
  "printed (print m r) = printed r @ [m]"
  by (simp_all add: print_def)

lemma wait_for_confirmation_frame [simp]:
  "fst (wait_for_confirmation j c r) = (c = Completed)"
  "scan_results (snd (wait_for_confirmation j c r)) = scan_results r"
  "placement_zones (snd (wait_for_confirmation j c r)) = placement_zones r"
  "logged (snd (wait_for_confirmation j c r)) = logged r"
  "printed (snd (wait_for_confirmation j c r)) = printed r"
  "sent (serial_manager (snd (wait_for_confirmation j c r))) = sent (serial_manager r)"
  "callbacks (serial_manager (snd (wait_for_confirmation j c r))) = callbacks (serial_manager r)"
  "safety_status (serial_manager (snd (wait_for_confirmation j c r))) =
     safety_status (serial_manager r)"
  "scan_complete_event (serial_manager (snd (wait_for_confirmation j c r))) =
     scan_complete_event (serial_manager r)"
  "close_calls (serial_manager (snd (wait_for_confirmation j c r))) =
     close_calls (serial_manager r)"
  by (simp_all add: wait_for_confirmation_def split: confirmation.splits)

lemma bind_simps [simp]:
  "bind (Return x, r) f = f x r"
  "bind (Raise e, r) f = (Raise e, r)"
  "bind (Still_polling, r) f = (Still_polling, r)"
  by (simp_all add: bind_def)

lemma lower_char_idem: "lower_char (lower_char c) = lower_char c"
  by (simp add: lower_char_def ascii_uppercase_def ascii_lowercase_def)

lemma lower_idem: "lower (lower s) = lower s"
  by (simp add: lower_def lower_char_idem)

lemma lower_Apple: "lower ''Apple'' = ''apple''"
  by (simp add: lower_def lower_char_def ascii_uppercase_def ascii_lowercase_def)

lemma configured_default: "configured_zones ''default'' = Some \<lparr>angle = 270, distance = 200\<rparr>"
  by (simp add: configured_zones_def)

lemma lower_empty: "lower [] = []" by (simp add: lower_def)

lemma lower_apple: "lower ''apple'' = ''apple''"
  by (simp add: lower_def lower_char_def ascii_uppercase_def ascii_lowercase_def)

lemma lookup_configured: "placement_zones r = configured_zones \<Longrightarrow>
  get_placement_zones r s =
    Inr (case configured_zones (lower s) of None \<Rightarrow> \<lparr>angle = 270, distance = 200\<rparr> | Some z \<Rightarrow> z)"
  by (simp add: get_placement_zones_def configured_default)

lemma configured_unknown: "k \<notin> {''apple'', ''orange'', ''bottle''} \<Longrightarrow>
   (case configured_zones k of None \<Rightarrow> \<lparr>angle = 270, distance = 200\<rparr> | Some z \<Rightarrow> z) = \<lparr>angle = 270, distance = 200\<rparr>"
  by (simp add: configured_zones_def)

subsection \<open>Zone lookup\<close>

text \<open>
  Claim C7. With the configured zone table, the zone lookup answers with a zone for every
  string and has no failing case; strings that agree after lower-casing get the same zone,
  so \<open>Apple\<close> and \<open>apple\<close> do; a class whose lower-case form is not a key of the
  table, and the empty class, get the default zone of angle 270 and distance 200.
\<close>

theorem zone_lookup_total_case_insensitive:
  assumes "placement_zones r = configured_zones"
  shows "(\<exists>z. get_placement_zones r s = Inr z)
       \<and> (lower s = lower s' \<longrightarrow> get_placement_zones r s = get_placement_zones r s')
       \<and> get_placement_zones r (lower s) = get_placement_zones r s
       \<and> get_placement_zones r ''Apple'' = get_placement_zones r ''apple''
       \<and> (lower s \<notin> {''apple'', ''orange'', ''bottle''} \<longrightarrow>
            get_placement_zones r s = Inr \<lparr>angle = 270, distance = 200\<rparr>)
       \<and> get_placement_zones r [] = Inr \<lparr>angle = 270, distance = 200\<rparr>"
proof (intro conjI impI)
  show "\<exists>z. get_placement_zones r s = Inr z" by (simp add: lookup_configured [OF assms])
  show "get_placement_zones r s = get_placement_zones r s'" if "lower s = lower s'"
    using that by (simp add: lookup_configured [OF assms])
  show "get_placement_zones r (lower s) = get_placement_zones r s"
    by (simp add: lookup_configured [OF assms] lower_idem)
  show "get_placement_zones r ''Apple'' = get_placement_zones r ''apple''"
    by (simp add: lookup_configured [OF assms] lower_Apple lower_apple)
  show "get_placement_zones r s = Inr \<lparr>angle = 270, distance = 200\<rparr>"
    if "lower s \<notin> {''apple'', ''orange'', ''bottle''}"
    using configured_unknown [OF that] by (simp add: lookup_configured [OF assms])
  show "get_placement_zones r [] = Inr \<lparr>angle = 270, distance = 200\<rparr>"
    by (simp add: lookup_configured [OF assms] lower_empty configured_zones_def)
qed

lemma update_object_registry_frame [simp]:
  "serial_manager (update_object_registry e r) = serial_manager r"
  "placement_zones (update_object_registry e r) = placement_zones r"
  "printed (update_object_registry e r) = printed r"
  by (simp_all add: update_object_registry_def split: sum.splits)

lemma deliver_detection_frame [simp]:
  "serial_manager (deliver_detection e r) = serial_manager r"
  "placement_zones (deliver_detection e r) = placement_zones r"
  "printed (deliver_detection e r) = printed r"
  by (simp_all add: deliver_detection_def scan_callback_def split: option.splits callback.splits)

lemma deliver_detections_frame [simp]:
  "serial_manager (deliver_detections es r) = serial_manager r"
  "placement_zones (deliver_detections es r) = placement_zones r"
  "printed (deliver_detections es r) = printed r"
  by (induction es arbitrary: r; simp add: deliver_detections_def)+

lemma deliver_detections_Nil [simp]: "deliver_detections [] r = r"
  by (simp add: deliver_detections_def)

lemma deliver_detections_append:
  "deliver_detections (xs @ ys) r = deliver_detections ys (deliver_detections xs r)"
  by (simp add: deliver_detections_def)



lemma lookup_zone_in:
  "placement_zones r ''default'' \<noteq> None \<Longrightarrow>
   get_placement_zones r c = Inr (zone_in (placement_zones r) c)"
  by (auto simp add: get_placement_zones_def zone_in_def default_zone_def split: option.splits)

lemma recorded_append: "recorded zones (xs @ ys) = recorded zones xs @ recorded zones ys"
  by (simp add: recorded_def)

lemma recorded_Nil [simp]: "recorded zones [] = []"
  by (simp add: recorded_def)

lemma recorded_empty_iff [simp]: "recorded zones es = [] \<longleftrightarrow> filter has_class es = []"
  by (simp add: recorded_def)

lemma recorded_empty: "filter has_class es = [] \<Longrightarrow> recorded zones es = []"
  by simp

lemma deliver_one:
  assumes "callbacks (serial_manager r) ''scan_service'' = Some Scan_callback"
    and "placement_zones r ''default'' \<noteq> None"
  shows "deliver_detection e r =
     r\<lparr>scan_results := scan_results r @ map Provisional (recorded (placement_zones r) [e])\<rparr>"
  using assms
  by (simp add: deliver_detection_def scan_callback_def update_object_registry_def
      recorded_def lookup_zone_in)

lemma deliver_all:
  assumes "callbacks (serial_manager r) ''scan_service'' = Some Scan_callback"
    and "placement_zones r ''default'' \<noteq> None"
  shows "deliver_detections events r =
     r\<lparr>scan_results := scan_results r @ map Provisional (recorded (placement_zones r) events)\<rparr>"
  using assms
proof (induction events arbitrary: r)
  case Nil
  then show ?case by simp
next
  case (Cons e es)
  let ?r1 = "deliver_detection e r"
  have r1: "?r1 = r\<lparr>scan_results := scan_results r @ map Provisional (recorded (placement_zones r) [e])\<rparr>"
    by (rule deliver_one [OF Cons.prems])
  have c1: "callbacks (serial_manager ?r1) ''scan_service'' = Some Scan_callback"
    using Cons.prems(1) by simp
  have d1: "placement_zones ?r1 ''default'' \<noteq> None"
    using Cons.prems(2) by simp
  have "deliver_detections (e # es) r = deliver_detections es ?r1"
    by (simp add: deliver_detections_def)
  also have "\<dots> = ?r1\<lparr>scan_results := scan_results ?r1 @
      map Provisional (recorded (placement_zones ?r1) es)\<rparr>"
    by (rule Cons.IH [OF c1 d1])
  also have "\<dots> = r\<lparr>scan_results := scan_results r @
      map Provisional (recorded (placement_zones r) (e # es))\<rparr>"
    by (simp add: r1 recorded_def)
  finally show ?case .
qed

lemma deliver_all_scan_results:
  assumes "callbacks (serial_manager r) ''scan_service'' = Some Scan_callback"
    and "placement_zones r ''default'' \<noteq> None"
  shows "scan_results (deliver_detections events r) =
           scan_results r @ map Provisional (recorded (placement_zones r) events)"
    and "logged (deliver_detections events r) = logged r"
  by (simp_all add: deliver_all [OF assms])

lemma process_loop_frame [simp]:
  "serial_manager (snd (process_loop i objs acc r)) = serial_manager r"
  "placement_zones (snd (process_loop i objs acc r)) = placement_zones r"
  "printed (snd (process_loop i objs acc r)) = printed r"
  "scan_results (snd (process_loop i objs acc r)) = scan_results r"
  by (induction i objs acc r rule: process_loop.induct; simp)+

lemma snd_bind_frame:
  assumes "\<And>x s. P (snd (f x s)) = P s"
  shows "P (snd (bind m f)) = P (snd m)"
  using assms by (cases m; cases "fst m") (auto simp add: bind_def)

lemma bind_fst:
  "bind m f = (case fst m of Return x \<Rightarrow> f x (snd m) | Raise e \<Rightarrow> (Raise e, snd m)
               | Still_polling \<Rightarrow> (Still_polling, snd m))"
  by (cases m; cases "fst m") (auto simp add: bind_def)

lemma process_scan_results_frame [simp]:
  "serial_manager (snd (process_scan_results xs ys r)) = serial_manager r"
  "placement_zones (snd (process_scan_results xs ys r)) = placement_zones r"
  "printed (snd (process_scan_results xs ys r)) = printed r"
  by (simp_all add: process_scan_results_def Let_def
      snd_bind_frame [where P = serial_manager] snd_bind_frame [where P = placement_zones]
      snd_bind_frame [where P = printed])

lemma deliver_detection_provisional:
  assumes "\<forall>x \<in> set (scan_results r). \<exists>p. x = Provisional p"
  shows "\<forall>x \<in> set (scan_results (deliver_detection e r)). \<exists>p. x = Provisional p"
  using assms
  by (auto simp add: deliver_detection_def scan_callback_def update_object_registry_def
      split: option.splits callback.splits sum.splits)

lemma deliver_detections_provisional:
  assumes "\<forall>x \<in> set (scan_results r). \<exists>p. x = Provisional p"
  shows "\<forall>x \<in> set (scan_results (deliver_detections es r)). \<exists>p. x = Provisional p"
  using assms
proof (induction es arbitrary: r)
  case Nil
  then show ?case by simp
next
  case (Cons e es)
  from Cons.IH [OF deliver_detection_provisional [OF Cons.prems, of e]]
  show ?case by (simp add: deliver_detections_def)
qed

lemma process_loop_returns:
  assumes "\<forall>x \<in> set objs. \<exists>p. x = Provisional p"
  shows "\<exists>items. fst (process_loop i objs acc r) = Return items"
  using assms
  by (induction i objs acc r rule: process_loop.induct) auto

lemma process_scan_results_returns:
  assumes "\<forall>x \<in> set (scan_results r). \<exists>p. x = Provisional p"
  shows "fst (process_scan_results xs ys r) = Return ()"
proof (cases "scan_results r = []")
  case True
  then show ?thesis by (simp add: process_scan_results_def)
next
  case False
  let ?r1 = "deliver_detections xs
      (log_record INFO (Objects_scanned (length (scan_results r))) r)"
  have "\<forall>x \<in> set (scan_results ?r1). \<exists>p. x = Provisional p"
    by (rule deliver_detections_provisional) (use assms in simp)
  then obtain items where "fst (process_loop 1 (scan_results ?r1) [] ?r1) = Return items"
    using process_loop_returns by blast
  then show ?thesis
    using False by (simp add: process_scan_results_def bind_fst Let_def)
qed

lemma begin_scan_frame [simp]:
  "scan_results (begin_scan r) = []"
  "placement_zones (begin_scan r) = placement_zones r"
  "printed (begin_scan r) = printed r"
  "logged (begin_scan r) = logged r @ [(INFO, Scanning_in_progress)]"
  "callbacks (serial_manager (begin_scan r)) =
     (callbacks (serial_manager r))(''scan_service'' \<mapsto> Scan_callback)"
  "sent (serial_manager (begin_scan r)) = sent (serial_manager r) @ [(''scan_service'', Scan_speed 20)]"
  "close_calls (serial_manager (begin_scan r)) = close_calls (serial_manager r)"
  "safety_status (serial_manager (begin_scan r)) = safety_status (serial_manager r)"
  "movement_status (serial_manager (begin_scan r)) = movement_status (serial_manager r)"
  "scan_complete_event (serial_manager (begin_scan r)) = scan_complete_event (serial_manager r)"
  by (simp_all add: begin_scan_def Let_def)

lemma scan_window_provisional:
  "\<forall>x \<in> set (scan_results (deliver_detections es (begin_scan r))). \<exists>p. x = Provisional p"
  by (rule deliver_detections_provisional) simp

lemma handle_scan_command_returns:
  "fst (handle_scan_command es sig late r) = Return ()"
  using scan_window_provisional [of es r]
  by (simp add: handle_scan_command_def wait_scan_complete_def Let_def bind_fst
      process_scan_results_returns)

lemma handle_scan_command_frame [simp]:
  "sent (serial_manager (snd (handle_scan_command es sig late r))) =
     sent (serial_manager r) @ [(''scan_service'', Scan_speed 20)]"
  "close_calls (serial_manager (snd (handle_scan_command es sig late r))) = close_calls (serial_manager r)"
  "safety_status (serial_manager (snd (handle_scan_command es sig late r))) = safety_status (serial_manager r)"
  "movement_status (serial_manager (snd (handle_scan_command es sig late r))) = movement_status (serial_manager r)"
  "placement_zones (snd (handle_scan_command es sig late r)) = placement_zones r"
  "printed (snd (handle_scan_command es sig late r)) = printed r"
  by (simp_all add: handle_scan_command_def wait_scan_complete_def Let_def
      snd_bind_frame [where P = "\<lambda>r. sent (serial_manager r)"]
      snd_bind_frame [where P = "\<lambda>r. close_calls (serial_manager r)"]
      snd_bind_frame [where P = "\<lambda>r. safety_status (serial_manager r)"]
      snd_bind_frame [where P = "\<lambda>r. movement_status (serial_manager r)"]
      snd_bind_frame [where P = placement_zones]
      snd_bind_frame [where P = printed])

lemma handle_scan_command_unsubscribes:
  "callbacks (serial_manager (snd (handle_scan_command es sig late r))) =
     (callbacks (serial_manager r))(''scan_service'' := None)"
  using scan_window_provisional [of es r]
  by (simp add: handle_scan_command_def wait_scan_complete_def Let_def bind_fst
      process_scan_results_returns)


lemma process_loop_provisional:
  "process_loop i (map Provisional ps) acc r =
     (Return (acc @ map (\<lambda>(k, p). make_item k p) (zip [i..i + int (length ps) - 1] ps)),
      r\<lparr>logged := logged r @ map (\<lambda>(k, p). (INFO, summary (make_item k p)))
                                (zip [i..i + int (length ps) - 1] ps)\<rparr>)"
proof (induction ps arbitrary: i acc r)
  case Nil
  then show ?case by simp
next
  case (Cons p ps)
  have u: "[i..i + int (length (p # ps)) - 1] = i # [i + 1..i + 1 + int (length ps) - 1]"
    by (simp add: upto_rec1)
  show ?case
    unfolding u by (simp add: Cons.IH log_record_def)
qed

lemma process_loop_numbered:
  "fst (process_loop 1 (map Provisional ps) [] r) = Return (numbered ps)"
  by (simp add: process_loop_provisional numbered_def)

lemma scan_finalized:
  assumes "placement_zones r ''default'' \<noteq> None"
    and "sig \<or> scan_complete_event (serial_manager r)"
  shows "scan_results (snd (handle_scan_command es sig late r)) =
     (if filter has_class es = []
      then map Provisional (recorded (placement_zones r)
             (during_loop late @ after_loop late @ before_unsubscribe late))
      else map Item (numbered (recorded (placement_zones r) (es @ during_loop late)))
             @ map Provisional (recorded (placement_zones r) (before_unsubscribe late)))"
  using assms
  by (cases sig)
     (simp_all add: handle_scan_command_def wait_scan_complete_def Let_def
      process_scan_results_def bind_fst deliver_all_scan_results recorded_append
      process_loop_numbered recorded_empty map_append [symmetric] del: map_append)

lemma scan_completed:
  assumes "placement_zones r ''default'' \<noteq> None"
  shows "scan_results (snd (handle_scan_command es True late r)) =
     (if filter has_class es = []
      then map Provisional (recorded (placement_zones r)
             (during_loop late @ after_loop late @ before_unsubscribe late))
      else map Item (numbered (recorded (placement_zones r) (es @ during_loop late)))
             @ map Provisional (recorded (placement_zones r) (before_unsubscribe late)))"
  by (rule scan_finalized [OF assms]) simp







lemma length_numbered [simp]: "length (numbered ps) = length ps"
  by (simp add: numbered_def)






lemma init_zones: "placement_zones (robot_init t) = configured_zones"
  by (simp add: robot_init_def)

lemma init_default: "placement_zones (robot_init t) ''default'' \<noteq> None"
  by (simp add: init_zones configured_default)

lemma lower_scenario: "lower ''apple'' = ''apple''" "lower ''widget'' = ''widget''"
  by (simp_all add: lower_def lower_char_def ascii_uppercase_def ascii_lowercase_def)

lemma zone_in_scenario:
  "zone_in configured_zones ''apple'' = \<lparr>angle = 90, distance = 200\<rparr>"
  "zone_in configured_zones ''widget'' = \<lparr>angle = 270, distance = 200\<rparr>"
  by (simp_all add: zone_in_def default_zone_def lower_scenario configured_zones_def)

lemma recorded_scenario:
  "recorded configured_zones scenario_events =
     [make_provisional (scenario_events ! 0) \<lparr>angle = 90, distance = 200\<rparr>,
      make_provisional (scenario_events ! 2) \<lparr>angle = 270, distance = 200\<rparr>]"
  "recorded configured_zones (take 2 scenario_events) =
     [make_provisional (scenario_events ! 0) \<lparr>angle = 90, distance = 200\<rparr>]"
  "recorded configured_zones (drop 2 scenario_events) =
     [make_provisional (scenario_events ! 2) \<lparr>angle = 270, distance = 200\<rparr>]"
  by (simp_all add: recorded_def scenario_events_def has_class_def get_default_def
      zone_in_scenario)

lemma numbered_scenario:
  "numbered [make_provisional (scenario_events ! 0) \<lparr>angle = 90, distance = 200\<rparr>,
      make_provisional (scenario_events ! 2) \<lparr>angle = 270, distance = 200\<rparr>] = scenario_items"
  "numbered [make_provisional (scenario_events ! 0) \<lparr>angle = 90, distance = 200\<rparr>] =
     [hd scenario_items]"
  by (simp_all add: numbered_def scenario_items_def scenario_events_def make_item_def
      make_provisional_def get_default_def upto_rec1)

lemma filter_scenario:
  "filter has_class scenario_events \<noteq> []" "filter has_class (take 2 scenario_events) \<noteq> []"
  by (simp_all add: scenario_events_def has_class_def)

lemma scenario_catalog: "scan_results scenario_robot = map Item scenario_items"
  unfolding scenario_robot_def scan_completed [OF init_default]
  by (simp add: filter_scenario init_zones recorded_scenario numbered_scenario nothing_late_def)

lemma scenario_transport:
  "sent (serial_manager scenario_robot) = [(''scan_service'', Scan_speed 20)]"
  "close_calls (serial_manager scenario_robot) = 0"
  "safety_status (serial_manager scenario_robot) = [''state'' \<mapsto> ''idle'']"
  "callbacks (serial_manager scenario_robot) ''scan_service'' = None"
  by (simp_all add: scenario_robot_def handle_scan_command_unsubscribes robot_init_def
      fresh_transport_def)



lemma lower_Pear: "lower ''Pear'' = ''pear''" "lower ''PEAR'' = ''pear''"
  by (simp_all add: lower_def lower_char_def ascii_uppercase_def ascii_lowercase_def)

theorem zone_lookup_total_case_insensitive_witness:
  "placement_zones (robot_init fresh_transport) = configured_zones
   \<and> lower ''Pear'' = lower ''PEAR''
   \<and> lower ''Pear'' \<notin> {''apple'', ''orange'', ''bottle''}
   \<and> get_placement_zones (robot_init fresh_transport) ''Pear'' =
       get_placement_zones (robot_init fresh_transport) ''PEAR''
   \<and> get_placement_zones (robot_init fresh_transport) ''Pear'' =
       Inr \<lparr>angle = 270, distance = 200\<rparr>"
proof -
  have l: "lower ''Pear'' = lower ''PEAR''"
    by (simp add: lower_Pear)
  have u: "lower ''Pear'' \<notin> {''apple'', ''orange'', ''bottle''}"
    by (simp add: lower_Pear)
  note z = zone_lookup_total_case_insensitive [where r = "robot_init fresh_transport" and s = "''Pear''"
      and s' = "''PEAR''", OF init_zones]
  from z l have "get_placement_zones (robot_init fresh_transport) ''Pear'' =
       get_placement_zones (robot_init fresh_transport) ''PEAR''"
    by blast
  moreover from z u have "get_placement_zones (robot_init fresh_transport) ''Pear'' =
       Inr \<lparr>angle = 270, distance = 200\<rparr>"
    by blast
  ultimately show ?thesis
    using l u init_zones by blast
qed

lemma deliver_safety_apply:
  "safety_status (serial_manager (deliver_safety (safety_update t) r)) =
     apply_update (safety_status (serial_manager r)) t"
  by (cases "safety_update t") (simp_all add: apply_update_def)

lemma all_le_Suc_split: "(\<forall>j \<le> Suc i. P j) = (P 0 \<and> (\<forall>j \<le> i. P (Suc j)))"
  using All_less_Suc2 [of "Suc i" P] by (simp only: less_Suc_eq_le)

lemma completed_before_deadline_Cons:
  "completed_before_deadline st (t # ts) =
     (elapsed t < 15 \<and> (apply_update st t ''state'' = Some ''completed''
        \<or> completed_before_deadline (apply_update st t) ts))"
proof -
  have "completed_before_deadline st (t # ts) =
     ((\<forall>j \<le> 0. elapsed ((t # ts) ! j) < 15) \<and> safety_after st (take (Suc 0) (t # ts)) ''state'' = Some ''completed''
      \<or> (\<exists>i < length ts. (\<forall>j \<le> Suc i. elapsed ((t # ts) ! j) < 15)
        \<and> safety_after st (take (Suc (Suc i)) (t # ts)) ''state'' = Some ''completed''))"
    unfolding completed_before_deadline_def
    by (simp only: length_Cons Ex_less_Suc2)
  also have "\<dots> = (elapsed t < 15 \<and> (apply_update st t ''state'' = Some ''completed''
        \<or> completed_before_deadline (apply_update st t) ts))"
    unfolding completed_before_deadline_def
    by (auto simp add: safety_after_def all_le_Suc_split)
  finally show ?thesis .
qed

lemma safety_loop_Return_iff:
  "fst (safety_loop ticks r) = Return () \<longleftrightarrow>
     completed_before_deadline (safety_status (serial_manager r)) ticks"
proof (induction ticks arbitrary: r)
  case Nil
  then show ?case by (simp add: completed_before_deadline_def)
next
  case (Cons t ts)
  show ?case
    by (simp add: completed_before_deadline_Cons Let_def Cons.IH deliver_safety_apply)
qed

lemma safety_loop_outcomes:
  "fst (safety_loop ticks r) = Return () \<or> fst (safety_loop ticks r) = Raise (SystemExit 1)
    \<or> fst (safety_loop ticks r) = Still_polling"
  by (induction ticks arbitrary: r) (simp_all add: Let_def)

lemma safety_loop_polling:
  "fst (safety_loop ticks r) = Still_polling \<Longrightarrow> \<not> deadline_read ticks"
  by (induction ticks arbitrary: r) (auto simp add: Let_def deadline_read_def split: if_splits)

lemma safety_loop_frame [simp]:
  "sent (serial_manager (snd (safety_loop ticks r))) = sent (serial_manager r)"
  "callbacks (serial_manager (snd (safety_loop ticks r))) = callbacks (serial_manager r)"
  "movement_status (serial_manager (snd (safety_loop ticks r))) = movement_status (serial_manager r)"
  "scan_complete_event (serial_manager (snd (safety_loop ticks r))) = scan_complete_event (serial_manager r)"
  "scan_results (snd (safety_loop ticks r)) = scan_results r"
  "placement_zones (snd (safety_loop ticks r)) = placement_zones r"
  "printed (snd (safety_loop ticks r)) = printed r"
  by (induction ticks arbitrary: r; simp add: Let_def)+

lemma safety_loop_logged:
  "set (logged r) \<subseteq> set (logged (snd (safety_loop ticks r)))"
proof (induction ticks arbitrary: r)
  case Nil
  then show ?case by simp
next
  case (Cons t ts)
  have "set (logged r) \<subseteq> set (logged (deliver_safety (safety_update t) r))" by simp
  also have "\<dots> \<subseteq> set (logged (snd (safety_loop ts (deliver_safety (safety_update t) r))))"
    by (rule Cons.IH)
  finally show ?case by (auto simp add: Let_def)
qed

lemma safety_loop_close_calls:
  "close_calls (serial_manager (snd (safety_loop ticks r))) =
     (if fst (safety_loop ticks r) = Raise (SystemExit 1) then Suc (close_calls (serial_manager r))
      else close_calls (serial_manager r))"
  by (induction ticks arbitrary: r) (simp_all add: Let_def)

lemma safety_loop_exit:
  "fst (safety_loop ticks r) = Raise (SystemExit 1) \<Longrightarrow> deadline_read ticks"
  by (induction ticks arbitrary: r) (auto simp add: Let_def deadline_read_def split: if_splits)

lemma safety_loop_outcome:
  "fst (safety_loop ticks r) =
     (if completed_before_deadline (safety_status (serial_manager r)) ticks then Return ()
      else if deadline_read ticks then Raise (SystemExit 1) else Still_polling)"
  using safety_loop_Return_iff [of ticks r] safety_loop_outcomes [of ticks r]
    safety_loop_polling [of ticks r] safety_loop_exit [of ticks r]
  by auto

lemma failure_handler_Return_iff:
  "fst (handle_movement_failure ticks r) = Return () \<longleftrightarrow>
     completed_before_deadline (safety_status (serial_manager r)) ticks"
  by (simp add: handle_movement_failure_def safety_loop_Return_iff)

lemma failure_handler_frame [simp]:
  "sent (serial_manager (snd (handle_movement_failure ticks r))) =
     sent (serial_manager r) @ [(''safety_service'', No_payload)]"
  "callbacks (serial_manager (snd (handle_movement_failure ticks r))) = callbacks (serial_manager r)"
  "scan_results (snd (handle_movement_failure ticks r)) = scan_results r"
  "placement_zones (snd (handle_movement_failure ticks r)) = placement_zones r"
  "printed (snd (handle_movement_failure ticks r)) = printed r"
  by (simp_all add: handle_movement_failure_def)

lemma failure_handler_close_calls:
  "close_calls (serial_manager (snd (handle_movement_failure ticks r))) =
     (if fst (handle_movement_failure ticks r) = Raise (SystemExit 1)
      then Suc (close_calls (serial_manager r)) else close_calls (serial_manager r))"
  by (simp add: handle_movement_failure_def safety_loop_close_calls)

lemma fst_bind_raise:
  "fst (bind m (\<lambda>u r. (Raise e, g r))) =
     (case fst m of Return u \<Rightarrow> Raise e | Raise e' \<Rightarrow> Raise e' | Still_polling \<Rightarrow> Still_polling)"
  by (cases m; cases "fst m") (auto simp add: bind_def)

lemma snd_bind_same:
  "snd (bind m (\<lambda>u r. (f u, r))) = snd m"
  by (cases m; cases "fst m") (auto simp add: bind_def)

lemma movement_loop_frame [simp]:
  "scan_results (snd (movement_loop i conf ticks tag plan r)) = scan_results r"
  "placement_zones (snd (movement_loop i conf ticks tag plan r)) = placement_zones r"
  "callbacks (serial_manager (snd (movement_loop i conf ticks tag plan r))) = callbacks (serial_manager r)"
  "printed (snd (movement_loop i conf ticks tag plan r)) = printed r"
  by (induction plan arbitrary: i r; simp add: Let_def split_def snd_bind_same)+

lemma movement_loop_success:
  assumes "\<forall>k < length plan. conf (i + k) = Completed"
  shows "fst (movement_loop i conf ticks tag plan r) = Return ()"
    and "sent (serial_manager (snd (movement_loop i conf ticks tag plan r))) =
           sent (serial_manager r) @ map (\<lambda>mv. (tag, Step mv)) plan"
    and "close_calls (serial_manager (snd (movement_loop i conf ticks tag plan r))) =
           close_calls (serial_manager r)"
    and "safety_status (serial_manager (snd (movement_loop i conf ticks tag plan r))) =
           safety_status (serial_manager r)"
  using assms
proof (induction plan arbitrary: i r)
  case Nil
  { case 1 show ?case by simp }
  { case 2 show ?case by simp }
  { case 3 show ?case by simp }
  { case 4 show ?case by simp }
next
  case (Cons mv plan)
  { case 1
    then have c0: "conf i = Completed" and rest: "\<forall>k < length plan. conf (Suc i + k) = Completed"
      by auto
    show ?case by (simp add: Let_def split_def c0 Cons.IH(1) [OF rest]) }
  { case 2
    then have c0: "conf i = Completed" and rest: "\<forall>k < length plan. conf (Suc i + k) = Completed"
      by auto
    show ?case by (simp add: Let_def split_def c0 Cons.IH(2) [OF rest]) }
  { case 3
    then have c0: "conf i = Completed" and rest: "\<forall>k < length plan. conf (Suc i + k) = Completed"
      by auto
    show ?case by (simp add: Let_def split_def c0 Cons.IH(3) [OF rest]) }
  { case 4
    then have c0: "conf i = Completed" and rest: "\<forall>k < length plan. conf (Suc i + k) = Completed"
      by auto
    show ?case by (simp add: Let_def split_def c0 Cons.IH(4) [OF rest]) }
qed

lemma failure_handler_outcome:
  "fst (handle_movement_failure ticks r) =
     (if completed_before_deadline (safety_status (serial_manager r)) ticks then Return ()
      else if deadline_read ticks then Raise (SystemExit 1) else Still_polling)"
  by (simp add: handle_movement_failure_def safety_loop_outcome)

lemma movement_loop_failure:
  assumes "k < length plan" and "\<forall>j < k. conf (i + j) = Completed" and "conf (i + k) \<noteq> Completed"
  shows "fst (movement_loop i conf ticks tag plan r) =
     (if completed_before_deadline (safety_status (serial_manager r)) ticks
      then Raise (Movement_failed (joint (plan ! k)))
      else if deadline_read ticks then Raise (SystemExit 1) else Still_polling)"
    and "sent (serial_manager (snd (movement_loop i conf ticks tag plan r))) =
           sent (serial_manager r) @ map (\<lambda>mv. (tag, Step mv)) (take (Suc k) plan)
             @ [(''safety_service'', No_payload)]"
    and "close_calls (serial_manager (snd (movement_loop i conf ticks tag plan r))) =
           (if \<not> completed_before_deadline (safety_status (serial_manager r)) ticks
               \<and> deadline_read ticks
            then Suc (close_calls (serial_manager r)) else close_calls (serial_manager r))"
    and "(ERROR, Error_in_movement (Movement_failed (joint (plan ! k))))
           \<in> set (logged (snd (movement_loop i conf ticks tag plan r)))"
  using assms
proof (induction plan arbitrary: i r k)
  case Nil
  { case 1 then show ?case by simp }
  { case 2 then show ?case by simp }
  { case 3 then show ?case by simp }
  { case 4 then show ?case by simp }
next
  case (Cons mv plan)
  { case 1
    show ?case
    proof (cases k)
      case 0
      with 1 have c0: "conf i \<noteq> Completed" by simp
      show ?thesis
        by (simp add: 0 Let_def split_def c0 fst_bind_raise failure_handler_outcome)
    next
      case (Suc k')
      with 1 have c0: "conf i = Completed" and k': "k' < length plan"
        and pre: "\<forall>j < k'. conf (Suc i + j) = Completed" and bad: "conf (Suc i + k') \<noteq> Completed"
        by auto
      show ?thesis
        by (simp add: Suc Let_def split_def c0 Cons.IH(1) [OF k' pre bad])
    qed }
  { case 2
    show ?case
    proof (cases k)
      case 0
      with 2 have c0: "conf i \<noteq> Completed" by simp
      show ?thesis
        by (simp add: 0 Let_def split_def c0 snd_bind_same)
    next
      case (Suc k')
      with 2 have c0: "conf i = Completed" and k': "k' < length plan"
        and pre: "\<forall>j < k'. conf (Suc i + j) = Completed" and bad: "conf (Suc i + k') \<noteq> Completed"
        by auto
      show ?thesis
        by (simp add: Suc Let_def split_def c0 Cons.IH(2) [OF k' pre bad])
    qed }
  { case 3
    show ?case
    proof (cases k)
      case 0
      with 3 have c0: "conf i \<noteq> Completed" by simp
      show ?thesis
        by (simp add: 0 Let_def split_def c0 snd_bind_same failure_handler_close_calls failure_handler_outcome)
    next
      case (Suc k')
      with 3 have c0: "conf i = Completed" and k': "k' < length plan"
        and pre: "\<forall>j < k'. conf (Suc i + j) = Completed" and bad: "conf (Suc i + k') \<noteq> Completed"
        by auto
      show ?thesis
        by (simp add: Suc Let_def split_def c0 Cons.IH(3) [OF k' pre bad])
    qed }
  { case 4
    show ?case
    proof (cases k)
      case 0
      with 4 have c0: "conf i \<noteq> Completed" by simp
      show ?thesis
        by (simp add: 0 Let_def split_def c0 snd_bind_same handle_movement_failure_def)
          (rule subsetD [OF safety_loop_logged], simp)
    next
      case (Suc k')
      with 4 have c0: "conf i = Completed" and k': "k' < length plan"
        and pre: "\<forall>j < k'. conf (Suc i + j) = Completed" and bad: "conf (Suc i + k') \<noteq> Completed"
        by auto
      show ?thesis
        by (simp add: Suc Let_def split_def c0 Cons.IH(4) [OF k' pre bad])
    qed }
qed

lemma execute_movement_frame [simp]:
  "scan_results (snd (execute_movement conf ticks tag plan r)) = scan_results r"
  "placement_zones (snd (execute_movement conf ticks tag plan r)) = placement_zones r"
  "callbacks (serial_manager (snd (execute_movement conf ticks tag plan r))) = callbacks (serial_manager r)"
  "printed (snd (execute_movement conf ticks tag plan r)) = printed r"
  by (simp_all add: execute_movement_def)

lemma catch_Exception_fst:
  "fst (catch_Exception d m) =
     (case fst m of Return u \<Rightarrow> Return True
      | Raise e \<Rightarrow> if is_Exception e then Return False else Raise e
      | Still_polling \<Rightarrow> Still_polling)"
  by (cases m; cases "fst m") (auto simp add: catch_Exception_def)

lemma catch_Exception_frame [simp]:
  "serial_manager (snd (catch_Exception d m)) = serial_manager (snd m)"
  "scan_results (snd (catch_Exception d m)) = scan_results (snd m)"
  "placement_zones (snd (catch_Exception d m)) = placement_zones (snd m)"
  "printed (snd (catch_Exception d m)) = printed (snd m)"
  by (cases m; cases "fst m"; auto simp add: catch_Exception_def)+

lemma print_objects_items:
  "print_objects (map Item items) r =
     (Return (), r\<lparr>printed := printed r @
        map (\<lambda>x. Object_line (index x) (center_angle x) (obj_distance x) (obj_class x)
                  (obj_confidence x)) items\<rparr>)"
  by (induction items arbitrary: r) (simp_all add: print_def)

lemma next_with_index_items:
  "next_with_index n (map Item items) = Return (find (\<lambda>x. index x = n) items)"
  by (induction items) simp_all

lemma print_objects_frame [simp]:
  "serial_manager (snd (print_objects objs r)) = serial_manager r"
  "scan_results (snd (print_objects objs r)) = scan_results r"
  "placement_zones (snd (print_objects objs r)) = placement_zones r"
  "logged (snd (print_objects objs r)) = logged r"
  by (induction objs r rule: print_objects.induct; simp)+

lemma select_frame [simp]:
  "serial_manager (snd (select_object_interactively typed r)) = serial_manager r"
  "scan_results (snd (select_object_interactively typed r)) = scan_results r"
  "placement_zones (snd (select_object_interactively typed r)) = placement_zones r"
  "logged (snd (select_object_interactively typed r)) = logged r"
  by (cases "print_objects (scan_results r) (print Objects_detected_list r)";
      cases "fst (print_objects (scan_results r) (print Objects_detected_list r))";
      cases typed;
      insert print_objects_frame [of "scan_results r" "print Objects_detected_list r"];
      simp add: select_object_interactively_def Let_def)+

lemma select_items:
  assumes "scan_results r = map Item items"
  shows "fst (select_object_interactively typed r) =
     Return (case typed of None \<Rightarrow> None
             | Some n \<Rightarrow> if n = 0 then None else find (\<lambda>x. index x = n) items)"
  using assms
  by (simp add: select_object_interactively_def print_objects_items Let_def
      next_with_index_items split: option.splits)

lemma pick_place_empty:
  "scan_results r = [] \<Longrightarrow>
   handle_pick_place_command typed pc plc ticks r =
     (Return (), log_record WARNING Scan_environment_first r)"
  by (simp add: handle_pick_place_command_def)

lemma pick_place_unfold:
  "scan_results r \<noteq> [] \<Longrightarrow>
   handle_pick_place_command typed pc plc ticks r =
     bind (fst (select_object_interactively typed r), snd (select_object_interactively typed r))
          (\<lambda>selected r1.
             case selected of
               None \<Rightarrow> (Return (), r1)
             | Some selected_object \<Rightarrow>
                 bind (execute_pick_sequence pc ticks selected_object
                         (log_record INFO (Distance_of (obj_distance selected_object))
                            (log_record INFO (Angle_of (center_angle selected_object))
                               (log_record INFO (Init_pick_place (index selected_object)) r1))))
                   (\<lambda>picked r2.
                      if picked then
                        bind (execute_place_sequence plc ticks selected_object
                                (log_record INFO Pick_completed r2))
                          (\<lambda>placed r3.
                             if placed then (Return (), log_record INFO Pick_and_place_completed r3)
                             else (Return (), r3))
                      else (Return (), r2)))"
  by (simp add: handle_pick_place_command_def)

lemma select_cancel_cases:
  assumes "typed = Some 0 \<or> typed = None"
  shows "fst (select_object_interactively typed r) = Return None
       \<or> (\<exists>e. fst (select_object_interactively typed r) = Raise e)
       \<or> fst (select_object_interactively typed r) = Still_polling"
  using assms
  by (cases "print_objects (scan_results r) (print Objects_detected_list r)";
      cases "fst (print_objects (scan_results r) (print Objects_detected_list r))")
     (auto simp add: select_object_interactively_def Let_def)

lemma pick_place_cancel_sent:
  assumes "typed = Some 0 \<or> typed = None"
  shows "sent (serial_manager (snd (handle_pick_place_command typed pc plc ticks r))) =
           sent (serial_manager r)"
proof (cases "scan_results r = []")
  case True
  then show ?thesis by (simp add: pick_place_empty)
next
  case False
  obtain out r1 where eq: "select_object_interactively typed r = (out, r1)"
    by (cases "select_object_interactively typed r")
  have r1: "serial_manager r1 = serial_manager r"
    using select_frame(1) [of typed r] by (simp add: eq)
  from select_cancel_cases [OF assms, of r]
  have "out = Return None \<or> (\<exists>e. out = Raise e) \<or> out = Still_polling"
    by (simp add: eq)
  then show ?thesis
    using r1 False by (auto simp add: handle_pick_place_command_def eq)
qed

lemma pick_place_no_selection:
  assumes "scan_results r = map Item items"
    and "(case typed of None \<Rightarrow> None
          | Some n \<Rightarrow> if n = 0 then None else find (\<lambda>x. index x = n) items) = None"
  shows "fst (handle_pick_place_command typed pc plc ticks r) = Return ()"
    and "serial_manager (snd (handle_pick_place_command typed pc plc ticks r)) = serial_manager r"
    and "scan_results (snd (handle_pick_place_command typed pc plc ticks r)) = scan_results r"
    and "items \<noteq> [] \<Longrightarrow> snd (handle_pick_place_command typed pc plc ticks r) =
           snd (select_object_interactively typed r)"
proof -
  have s: "fst (select_object_interactively typed r) = Return None"
    using select_items [OF assms(1), of typed] assms(2) by simp
  show "fst (handle_pick_place_command typed pc plc ticks r) = Return ()"
    by (cases "scan_results r = []") (simp_all add: pick_place_empty pick_place_unfold s)
  show "serial_manager (snd (handle_pick_place_command typed pc plc ticks r)) = serial_manager r"
    by (cases "scan_results r = []") (simp_all add: pick_place_empty pick_place_unfold s)
  show "scan_results (snd (handle_pick_place_command typed pc plc ticks r)) = scan_results r"
    by (cases "scan_results r = []") (simp_all add: pick_place_empty pick_place_unfold s)
  show "snd (handle_pick_place_command typed pc plc ticks r) =
           snd (select_object_interactively typed r)" if "items \<noteq> []"
    using that assms(1) by (simp add: pick_place_unfold s)
qed

text \<open>
  Claim C8. With an empty catalog the pick and place command logs the request to scan
  first and returns, changing nothing else. When the selection typed is 0 or is not a
  number, the command sends no command at all; with a finalized catalog it returns
  normally and leaves the transport and the catalog as they were.
\<close>

theorem pick_place_without_selection_sends_nothing:
  "(scan_results r = [] \<longrightarrow>
      handle_pick_place_command typed pc plc ticks r =
        (Return (), log_record WARNING Scan_environment_first r))
   \<and> (typed = Some 0 \<or> typed = None \<longrightarrow>
        sent (serial_manager (snd (handle_pick_place_command typed pc plc ticks r))) =
          sent (serial_manager r))
   \<and> ((typed = Some 0 \<or> typed = None) \<and> (\<exists>items. scan_results r = map Item items) \<longrightarrow>
        fst (handle_pick_place_command typed pc plc ticks r) = Return ()
        \<and> serial_manager (snd (handle_pick_place_command typed pc plc ticks r)) = serial_manager r
        \<and> scan_results (snd (handle_pick_place_command typed pc plc ticks r)) = scan_results r)"
proof (intro conjI impI)
  show "handle_pick_place_command typed pc plc ticks r =
        (Return (), log_record WARNING Scan_environment_first r)" if "scan_results r = []"
    using that by (rule pick_place_empty)
  show "sent (serial_manager (snd (handle_pick_place_command typed pc plc ticks r))) =
          sent (serial_manager r)" if "typed = Some 0 \<or> typed = None"
    using that by (rule pick_place_cancel_sent)
next
  assume a: "(typed = Some 0 \<or> typed = None) \<and> (\<exists>items. scan_results r = map Item items)"
  then obtain items where i: "scan_results r = map Item items" by blast
  from a have n: "(case typed of None \<Rightarrow> None
          | Some n \<Rightarrow> if n = 0 then None else find (\<lambda>x. index x = n) items) = None"
    by auto
  show "fst (handle_pick_place_command typed pc plc ticks r) = Return ()"
    by (rule pick_place_no_selection(1) [OF i n])
  show "serial_manager (snd (handle_pick_place_command typed pc plc ticks r)) = serial_manager r"
    by (rule pick_place_no_selection(2) [OF i n])
  show "scan_results (snd (handle_pick_place_command typed pc plc ticks r)) = scan_results r"
    by (rule pick_place_no_selection(3) [OF i n])
qed

lemma select_snd_items:
  assumes "scan_results r = map Item items"
  shows "snd (select_object_interactively typed r) =
     (let r2 = print Cancel_option (snd (print_objects (map Item items) (print Objects_detected_list r)))
      in case typed of None \<Rightarrow> print Invalid_input r2
         | Some n \<Rightarrow> if n = 0 then print Operation_canceled r2 else r2)"
  using assms
  by (simp add: select_object_interactively_def print_objects_items Let_def
      split: option.splits)

lemma select_unmatched_state:
  assumes "scan_results r = map Item items" and "n \<noteq> 0"
  shows "snd (select_object_interactively (Some 0) r) =
     print Operation_canceled (snd (select_object_interactively (Some n) r))"
  using assms(2) by (simp add: select_snd_items [OF assms(1)] Let_def)

text \<open>
  Claim C9, amended. With a finalized catalog, a number that is the index of no item makes
  the selection return the empty result; the pick and place command then returns normally
  and leaves the transport and the catalog as they were, as it does for the selection 0.
  The two are not handled identically: with items in the catalog, the state the command
  ends in is the state that the selection 0 ends in without the console line announcing
  the cancellation, which only the selection 0 prints.
\<close>

theorem unmatched_selection_sends_nothing:
  assumes "scan_results r = map Item items" and "n \<notin> index ` set items"
  shows "fst (select_object_interactively (Some n) r) = Return None
   \<and> fst (handle_pick_place_command (Some n) pc plc ticks r) = Return ()
   \<and> serial_manager (snd (handle_pick_place_command (Some n) pc plc ticks r)) = serial_manager r
   \<and> scan_results (snd (handle_pick_place_command (Some n) pc plc ticks r)) = scan_results r
   \<and> (items \<noteq> [] \<and> n \<noteq> 0 \<longrightarrow>
        snd (handle_pick_place_command (Some 0) pc plc ticks r) =
          print Operation_canceled (snd (handle_pick_place_command (Some n) pc plc ticks r)))"
proof -
  have f: "find (\<lambda>x. index x = n) items = None"
    using assms(2) by (auto simp add: find_None_iff)
  then have c: "(case Some n of None \<Rightarrow> None
          | Some n \<Rightarrow> if n = 0 then None else find (\<lambda>x. index x = n) items) = None"
    by simp
  have c0: "(case Some (0::int) of None \<Rightarrow> None
          | Some n \<Rightarrow> if n = 0 then None else find (\<lambda>x. index x = n) items) = None"
    by simp
  have "fst (select_object_interactively (Some n) r) = Return None"
    using select_items [OF assms(1), of "Some n"] f by simp
  moreover note pick_place_no_selection(1,2,3) [OF assms(1) c, of pc plc ticks]
  moreover have "snd (handle_pick_place_command (Some 0) pc plc ticks r) =
          print Operation_canceled (snd (handle_pick_place_command (Some n) pc plc ticks r))"
    if "items \<noteq> []" and "n \<noteq> 0"
    by (simp add: pick_place_no_selection(4) [OF assms(1) c that(1)]
        pick_place_no_selection(4) [OF assms(1) c0 that(1)]
        select_unmatched_state [OF assms(1) that(2)])
  ultimately show ?thesis by simp
qed

lemma init_scan_results: "scan_results (robot_init t) = []"
  by (simp add: robot_init_def)

theorem pick_place_without_selection_sends_nothing_witness:
  "scan_results (robot_init fresh_transport) = []
   \<and> handle_pick_place_command (Some 1) (\<lambda>i. Completed) (\<lambda>i. Completed) []
        (robot_init fresh_transport) =
        (Return (), log_record WARNING Scan_environment_first (robot_init fresh_transport))
   \<and> (\<exists>items. scan_results scenario_robot = map Item items)
   \<and> fst (handle_pick_place_command (Some 0) (\<lambda>i. Completed) (\<lambda>i. Completed) []
        scenario_robot) = Return ()
   \<and> sent (serial_manager (snd (handle_pick_place_command (Some 0) (\<lambda>i. Completed)
        (\<lambda>i. Completed) [] scenario_robot))) = [(''scan_service'', Scan_speed 20)]"
proof -
  have e: "scan_results (robot_init fresh_transport) = []"
    by (rule init_scan_results)
  have c: "\<exists>items. scan_results scenario_robot = map Item items"
    using scenario_catalog by blast
  note a = pick_place_without_selection_sends_nothing
    [of "robot_init fresh_transport" "Some 1" "\<lambda>i. Completed" "\<lambda>i. Completed" "[]"]
  note b = pick_place_without_selection_sends_nothing
    [of scenario_robot "Some 0" "\<lambda>i. Completed" "\<lambda>i. Completed" "[]"]
  from a e have "handle_pick_place_command (Some 1) (\<lambda>i. Completed) (\<lambda>i. Completed) []
        (robot_init fresh_transport) =
        (Return (), log_record WARNING Scan_environment_first (robot_init fresh_transport))"
    by blast
  moreover from b c have "fst (handle_pick_place_command (Some 0) (\<lambda>i. Completed)
       (\<lambda>i. Completed) [] scenario_robot) = Return ()"
    by blast
  moreover from b have "sent (serial_manager (snd (handle_pick_place_command (Some 0)
        (\<lambda>i. Completed) (\<lambda>i. Completed) [] scenario_robot))) = [(''scan_service'', Scan_speed 20)]"
    by (simp add: scenario_transport)
  ultimately show ?thesis using e c by blast
qed

theorem unmatched_selection_sends_nothing_witness:
  "scan_results scenario_robot = map Item scenario_items
   \<and> 5 \<notin> index ` set scenario_items
   \<and> fst (select_object_interactively (Some 5) scenario_robot) = Return None
   \<and> fst (handle_pick_place_command (Some 5) (\<lambda>i. Completed) (\<lambda>i. Completed) []
        scenario_robot) = Return ()
   \<and> sent (serial_manager (snd (handle_pick_place_command (Some 5) (\<lambda>i. Completed)
        (\<lambda>i. Completed) [] scenario_robot))) = [(''scan_service'', Scan_speed 20)]"
proof -
  have n: "5 \<notin> index ` set scenario_items"
    by (simp add: scenario_items_def)
  from unmatched_selection_sends_nothing [OF scenario_catalog n,
      of "\<lambda>i. Completed" "\<lambda>i. Completed" "[]"]
  show ?thesis
    using scenario_catalog n by (simp add: scenario_transport)
qed

text \<open>
  With the two items of the scenario in the catalog, the selection 0 ends with the line
  announcing the cancellation on the console; the selection 5 prints the listing only.
\<close>

theorem unmatched_selection_silent_counterexample:
  "scan_results scenario_robot = map Item scenario_items
   \<and> 5 \<notin> index ` set scenario_items
   \<and> last (printed (snd (handle_pick_place_command (Some 0) always_confirms always_confirms []
        scenario_robot))) = Operation_canceled
   \<and> Operation_canceled \<notin> set (printed (snd (handle_pick_place_command (Some 5)
        always_confirms always_confirms [] scenario_robot)))
   \<and> snd (handle_pick_place_command (Some 5) always_confirms always_confirms []
        scenario_robot) \<noteq>
      snd (handle_pick_place_command (Some 0) always_confirms always_confirms []
        scenario_robot)"
proof -
  have n: "5 \<notin> index ` set scenario_items"
    by (simp add: scenario_items_def)
  have i: "scenario_items \<noteq> []"
    by (simp add: scenario_items_def)
  have c5: "(case Some (5::int) of None \<Rightarrow> None
          | Some n \<Rightarrow> if n = 0 then None else find (\<lambda>x. index x = n) scenario_items) = None"
    by (simp add: scenario_items_def)
  have c0: "(case Some (0::int) of None \<Rightarrow> None
          | Some n \<Rightarrow> if n = 0 then None else find (\<lambda>x. index x = n) scenario_items) = None"
    by simp
  have p: "printed scenario_robot = []"
    by (simp add: scenario_robot_def robot_init_def)
  have p0: "last (printed (snd (handle_pick_place_command (Some 0) always_confirms
        always_confirms [] scenario_robot))) = Operation_canceled"
    by (simp add: pick_place_no_selection(4) [OF scenario_catalog c0 i]
        select_snd_items [OF scenario_catalog] Let_def)
  have p5: "Operation_canceled \<notin> set (printed (snd (handle_pick_place_command (Some 5)
        always_confirms always_confirms [] scenario_robot)))"
    by (simp add: pick_place_no_selection(4) [OF scenario_catalog c5 i]
        select_snd_items [OF scenario_catalog] Let_def print_objects_items p
        scenario_items_def print_def)
  have m0: "Operation_canceled \<in> set (printed (snd (handle_pick_place_command (Some 0)
        always_confirms always_confirms [] scenario_robot)))"
    by (simp add: pick_place_no_selection(4) [OF scenario_catalog c0 i]
        select_snd_items [OF scenario_catalog] Let_def)
  from m0 p5 have "snd (handle_pick_place_command (Some 5) always_confirms always_confirms []
        scenario_robot) \<noteq>
      snd (handle_pick_place_command (Some 0) always_confirms always_confirms []
        scenario_robot)"
    by auto
  with p0 p5 n scenario_catalog show ?thesis by blast
qed

lemma completed_before_deadline_Nil: "completed_before_deadline st [] = False"
  by (simp add: completed_before_deadline_def)

lemma deliver_safety_None: "deliver_safety None r = r"
  by (simp add: deliver_safety_def)

text \<open>
  Claim C10. The failure handler does not write the safety status before it polls. When
  the status is already completed at the call and the transport has written nothing before
  the first poll, that poll, made before the deadline, ends the handler: it returns after
  logging and sending the one safety request, whatever the later clock readings and
  writes would have been, and the safety status is as it was.
\<close>

theorem stale_completed_status_recovers_at_first_poll:
  assumes "safety_status (serial_manager r) ''state'' = Some ''completed''"
    and "safety_update t = None" and "elapsed t < 15"
  shows "handle_movement_failure (t # ts) r =
           (Return (), log_record INFO System_safety
              (send_message ''safety_service'' No_payload
                 (log_record ERROR Executing_security_protocol r)))
       \<and> safety_status (serial_manager (snd (handle_movement_failure (t # ts) r))) =
           safety_status (serial_manager r)"
  using assms by (simp add: handle_movement_failure_def deliver_safety_None)

theorem stale_completed_status_recovers_at_first_poll_witness:
  "safety_status
      (serial_manager (scenario_robot\<lparr>serial_manager := (serial_manager scenario_robot)
          \<lparr>safety_status := [''state'' \<mapsto> ''completed'']\<rparr>\<rparr>)) ''state'' = Some ''completed''
   \<and> safety_update \<lparr>elapsed = 0, safety_update = None\<rparr> = None
   \<and> elapsed \<lparr>elapsed = 0, safety_update = None\<rparr> < 15
   \<and> fst (handle_movement_failure
         [\<lparr>elapsed = 0, safety_update = None\<rparr>, \<lparr>elapsed = 1 / 2, safety_update = Some ''idle''\<rparr>]
         (scenario_robot\<lparr>serial_manager := (serial_manager scenario_robot)
            \<lparr>safety_status := [''state'' \<mapsto> ''completed'']\<rparr>\<rparr>)) = Return ()"
proof -
  let ?r = "scenario_robot\<lparr>serial_manager := (serial_manager scenario_robot)
            \<lparr>safety_status := [''state'' \<mapsto> ''completed'']\<rparr>\<rparr>"
  let ?t = "\<lparr>elapsed = 0, safety_update = None\<rparr>"
  have a: "safety_status (serial_manager ?r) ''state'' = Some ''completed''" by simp
  have b: "safety_update ?t = None" by simp
  have c: "elapsed ?t < 15" by simp
  from stale_completed_status_recovers_at_first_poll [OF a b c,
      of "[\<lparr>elapsed = 1 / 2, safety_update = Some ''idle''\<rparr>]"]
  show ?thesis using a by simp
qed

lemma execute_movement_failure:
  assumes "k < length plan" and "\<forall>j < k. conf j = Completed" and "conf k \<noteq> Completed"
  shows "sent (serial_manager (snd (execute_movement conf ticks tag plan r))) =
           sent (serial_manager r) @ map (\<lambda>mv. (tag, Step mv)) (take (Suc k) plan)
             @ [(''safety_service'', No_payload)]"
    and "(ERROR, Error_in_movement (Movement_failed (joint (plan ! k))))
             \<in> set (logged (snd (execute_movement conf ticks tag plan r)))"
    and "fst (execute_movement conf ticks tag plan r) =
          (if completed_before_deadline (safety_status (serial_manager r)) ticks
           then Raise (Movement_failed (joint (plan ! k)))
           else if deadline_read ticks then Raise (SystemExit 1) else Still_polling)"
    and "close_calls (serial_manager (snd (execute_movement conf ticks tag plan r))) =
           (if \<not> completed_before_deadline (safety_status (serial_manager r)) ticks
               \<and> deadline_read ticks
            then Suc (close_calls (serial_manager r)) else close_calls (serial_manager r))"
proof -
  let ?r = "log_record INFO Execution_movements r"
  have pre: "\<forall>j < k. conf (0 + j) = Completed" using assms(2) by simp
  have bad: "conf (0 + k) \<noteq> Completed" using assms(3) by simp
  note f = movement_loop_failure [OF assms(1) pre bad, of ticks tag ?r]
  show "sent (serial_manager (snd (execute_movement conf ticks tag plan r))) =
           sent (serial_manager r) @ map (\<lambda>mv. (tag, Step mv)) (take (Suc k) plan)
             @ [(''safety_service'', No_payload)]"
    unfolding execute_movement_def using f(2) by simp
  show "(ERROR, Error_in_movement (Movement_failed (joint (plan ! k))))
             \<in> set (logged (snd (execute_movement conf ticks tag plan r)))"
    unfolding execute_movement_def using f(4) by simp
  show "fst (execute_movement conf ticks tag plan r) =
          (if completed_before_deadline (safety_status (serial_manager r)) ticks
           then Raise (Movement_failed (joint (plan ! k)))
           else if deadline_read ticks then Raise (SystemExit 1) else Still_polling)"
    unfolding execute_movement_def using f(1) by simp
  show "close_calls (serial_manager (snd (execute_movement conf ticks tag plan r))) =
           (if \<not> completed_before_deadline (safety_status (serial_manager r)) ticks
               \<and> deadline_read ticks
            then Suc (close_calls (serial_manager r)) else close_calls (serial_manager r))"
    unfolding execute_movement_def using f(3) by simp
qed

text \<open>
  Claim C4, amended. When the steps before position \<open>k\<close> (counted from 0) are confirmed
  and the step at \<open>k\<close> is not, \<open>execute_movement\<close> sends the first \<open>k + 1\<close> steps
  of the plan under the given tag, in order, then the one safety request, and nothing
  else; it logs the movement failure naming the joint of the failed step. It raises that
  failure to its caller when the safety protocol completes before the deadline; when the
  deadline is read first, the process exits with status 1 instead.
\<close>

theorem execute_movement_stops_at_first_failure:
  assumes "k < length plan" and "\<forall>j < k. conf j = Completed" and "conf k \<noteq> Completed"
  shows "sent (serial_manager (snd (execute_movement conf ticks tag plan r))) =
           sent (serial_manager r) @ map (\<lambda>mv. (tag, Step mv)) (take (Suc k) plan)
             @ [(''safety_service'', No_payload)]
       \<and> (ERROR, Error_in_movement (Movement_failed (joint (plan ! k))))
             \<in> set (logged (snd (execute_movement conf ticks tag plan r)))
       \<and> (completed_before_deadline (safety_status (serial_manager r)) ticks \<longrightarrow>
             fst (execute_movement conf ticks tag plan r) =
               Raise (Movement_failed (joint (plan ! k))))
       \<and> (\<not> completed_before_deadline (safety_status (serial_manager r)) ticks
             \<and> deadline_read ticks \<longrightarrow>
             fst (execute_movement conf ticks tag plan r) = Raise (SystemExit 1))"
  using execute_movement_failure(1,2,3) [OF assms, of ticks tag r] by simp

lemma no_recovery_never_completed:
  "\<not> completed_before_deadline [''state'' \<mapsto> ''idle''] no_recovery_ticks"
  by (simp add: no_recovery_ticks_def completed_before_deadline_Cons completed_before_deadline_Nil apply_update_def)

lemma recovery_completed_at_10:
  "completed_before_deadline [''state'' \<mapsto> ''idle''] recovery_ticks"
  by (simp add: recovery_ticks_def completed_before_deadline_Cons completed_before_deadline_Nil apply_update_def)

lemma deadline_at_15: "deadline_read no_recovery_ticks"
  by (simp add: no_recovery_ticks_def deadline_read_def)

lemma gripper_fails:
  "2 < length (pick_plan x)" "\<forall>j < 2. gripper_never_confirms j = Completed"
  "gripper_never_confirms 2 \<noteq> Completed" "joint (pick_plan x ! 2) = ''gripper''"
  by (simp_all add: pick_plan_def gripper_never_confirms_def)

lemma gripper_confirms_first:
  "gripper_never_confirms 0 = Completed" "gripper_never_confirms 1 = Completed"
  by (simp_all add: gripper_never_confirms_def)

theorem execute_movement_exit_counterexample:
  "fst (execute_movement gripper_never_confirms no_recovery_ticks ''pick_service''
          (pick_plan (hd scenario_items)) scenario_robot) = Raise (SystemExit 1)"
  by (simp add: execute_movement_failure(3) [OF gripper_fails(1,2,3)] scenario_transport
      no_recovery_never_completed deadline_at_15)

theorem execute_movement_stops_at_first_failure_witness:
  "2 < length (pick_plan (hd scenario_items))
   \<and> gripper_never_confirms 0 = Completed \<and> gripper_never_confirms 1 = Completed
   \<and> gripper_never_confirms 2 \<noteq> Completed
   \<and> completed_before_deadline (safety_status (serial_manager scenario_robot)) recovery_ticks
   \<and> fst (execute_movement gripper_never_confirms recovery_ticks ''pick_service''
          (pick_plan (hd scenario_items)) scenario_robot) = Raise (Movement_failed ''gripper'')
   \<and> sent (serial_manager (snd (execute_movement gripper_never_confirms recovery_ticks
          ''pick_service'' (pick_plan (hd scenario_items)) scenario_robot))) =
        [(''scan_service'', Scan_speed 20),
         (''pick_service'', Step (pick_plan (hd scenario_items) ! 0)),
         (''pick_service'', Step (pick_plan (hd scenario_items) ! 1)),
         (''pick_service'', Step (pick_plan (hd scenario_items) ! 2)),
         (''safety_service'', No_payload)]"
proof -
  have a: "2 < length (pick_plan (hd scenario_items))"
    by (rule gripper_fails(1))
  have b: "\<forall>j < 2. gripper_never_confirms j = Completed"
    by (rule gripper_fails(2))
  have c: "gripper_never_confirms 2 \<noteq> Completed"
    by (rule gripper_fails(3))
  have d: "completed_before_deadline (safety_status (serial_manager scenario_robot)) recovery_ticks"
    by (simp add: scenario_transport recovery_completed_at_10)
  have t: "take 3 (pick_plan (hd scenario_items)) =
     [pick_plan (hd scenario_items) ! 0, pick_plan (hd scenario_items) ! 1,
      pick_plan (hd scenario_items) ! 2]"
    by (simp add: pick_plan_def)
  from execute_movement_stops_at_first_failure [OF a b c, of recovery_ticks "''pick_service''"
      scenario_robot]
  show ?thesis
    using a c d gripper_confirms_first
    by (simp add: t gripper_fails(4) scenario_transport)
qed

lemma pick_place_pick_failure:
  assumes "scan_results r = map Item items"
    and "find (\<lambda>x. index x = n) items = Some x" and "n \<noteq> 0"
    and "k < 4" and "\<forall>j < k. pick_conf j = Completed" and "pick_conf k \<noteq> Completed"
    and "completed_before_deadline (safety_status (serial_manager r)) ticks"
  shows "fst (handle_pick_place_command (Some n) pick_conf place_conf ticks r) = Return ()"
    and "scan_results (snd (handle_pick_place_command (Some n) pick_conf place_conf ticks r)) =
           scan_results r"
    and "sent (serial_manager (snd (handle_pick_place_command (Some n) pick_conf place_conf ticks r))) =
           sent (serial_manager r) @ map (\<lambda>mv. (''pick_service'', Step mv)) (take (Suc k) (pick_plan x))
             @ [(''safety_service'', No_payload)]"
    and "close_calls (serial_manager (snd (handle_pick_place_command (Some n) pick_conf place_conf ticks r))) =
           close_calls (serial_manager r)"
proof -
  have ne: "scan_results r \<noteq> []"
    using assms(1,2) by (cases items) auto
  have s: "fst (select_object_interactively (Some n) r) = Return (Some x)"
    using select_items [OF assms(1), of "Some n"] assms(2,3) by simp
  have k: "k < length (pick_plan x)"
    using assms(4) by (simp add: pick_plan_def)
  note f = execute_movement_failure [OF k assms(5,6)]
  show "fst (handle_pick_place_command (Some n) pick_conf place_conf ticks r) = Return ()"
    using assms(7)
    by (simp add: pick_place_unfold [OF ne] s bind_fst execute_pick_sequence_def catch_Exception_fst f)
  show "scan_results (snd (handle_pick_place_command (Some n) pick_conf place_conf ticks r)) =
           scan_results r"
    using assms(7)
    by (simp add: pick_place_unfold [OF ne] s bind_fst execute_pick_sequence_def catch_Exception_fst f)
  show "sent (serial_manager (snd (handle_pick_place_command (Some n) pick_conf place_conf ticks r))) =
           sent (serial_manager r) @ map (\<lambda>mv. (''pick_service'', Step mv)) (take (Suc k) (pick_plan x))
             @ [(''safety_service'', No_payload)]"
    using assms(7)
    by (simp add: pick_place_unfold [OF ne] s bind_fst execute_pick_sequence_def catch_Exception_fst f)
  show "close_calls (serial_manager (snd (handle_pick_place_command (Some n) pick_conf place_conf ticks r))) =
           close_calls (serial_manager r)"
    using assms(7)
    by (simp add: pick_place_unfold [OF ne] s bind_fst execute_pick_sequence_def catch_Exception_fst f)
qed

text \<open>
  Claim C5. With a finalized catalog and a selected item, when a step of the pick plan
  is not confirmed and the safety protocol completes before the deadline, the pick and
  place command returns normally; the catalog is unchanged; the commands sent are the
  pick steps up to the failed one followed by the safety request, so no command under the
  place tag is sent.
\<close>

theorem recovered_pick_failure_abandons_attempt:
  assumes "scan_results r = map Item items"
    and "find (\<lambda>x. index x = n) items = Some x" and "n \<noteq> 0"
    and "k < 4" and "\<forall>j < k. pick_conf j = Completed" and "pick_conf k \<noteq> Completed"
    and "completed_before_deadline (safety_status (serial_manager r)) ticks"
  shows "fst (handle_pick_place_command (Some n) pick_conf place_conf ticks r) = Return ()
    \<and> scan_results (snd (handle_pick_place_command (Some n) pick_conf place_conf ticks r)) =
           scan_results r
    \<and> sent (serial_manager (snd (handle_pick_place_command (Some n) pick_conf place_conf ticks r))) =
           sent (serial_manager r) @ map (\<lambda>mv. (''pick_service'', Step mv)) (take (Suc k) (pick_plan x))
             @ [(''safety_service'', No_payload)]
    \<and> (\<forall>p. (''place_service'', p) \<notin> set (drop (length (sent (serial_manager r)))
           (sent (serial_manager (snd (handle_pick_place_command (Some n) pick_conf place_conf
              ticks r))))))"
proof -
  note h = pick_place_pick_failure [OF assms, of place_conf]
  have "\<forall>p. (''place_service'', p) \<notin> set (drop (length (sent (serial_manager r)))
           (sent (serial_manager (snd (handle_pick_place_command (Some n) pick_conf place_conf
              ticks r)))))"
    by (auto simp add: h(3))
  with h(1,2,3) show ?thesis by blast
qed

theorem recovered_pick_failure_abandons_attempt_witness:
  "scan_results scenario_robot = map Item scenario_items
   \<and> find (\<lambda>x. index x = 1) scenario_items = Some (hd scenario_items)
   \<and> (2::nat) < 4
   \<and> gripper_never_confirms 0 = Completed \<and> gripper_never_confirms 1 = Completed
   \<and> gripper_never_confirms 2 \<noteq> Completed
   \<and> completed_before_deadline (safety_status (serial_manager scenario_robot)) recovery_ticks
   \<and> fst (handle_pick_place_command (Some 1) gripper_never_confirms always_confirms
         recovery_ticks scenario_robot) = Return ()
   \<and> scan_results (snd (handle_pick_place_command (Some 1) gripper_never_confirms always_confirms
         recovery_ticks scenario_robot)) = map Item scenario_items
   \<and> map fst (sent (serial_manager (snd (handle_pick_place_command (Some 1)
         gripper_never_confirms always_confirms recovery_ticks scenario_robot)))) =
       [''scan_service'', ''pick_service'', ''pick_service'', ''pick_service'',
        ''safety_service'']"
proof -
  have a: "find (\<lambda>x. index x = 1) scenario_items = Some (hd scenario_items)"
    by (simp add: scenario_items_def)
  have b: "(1::int) \<noteq> 0" by simp
  have c: "(2::nat) < 4" by simp
  have d: "completed_before_deadline (safety_status (serial_manager scenario_robot)) recovery_ticks"
    by (simp add: scenario_transport recovery_completed_at_10)
  from recovered_pick_failure_abandons_attempt [OF scenario_catalog a b c gripper_fails(2,3) d,
      of always_confirms]
  show ?thesis
    using a d scenario_catalog gripper_fails(3) gripper_confirms_first
    by (simp add: scenario_transport pick_plan_def)
qed

lemma exits_simps [simp]:
  "exits (Return x) = False" "exits Still_polling = False"
  "exits (Raise e) = (\<not> is_Exception e)"
  by (simp_all add: exits_def split: exc.splits)

lemma exit_closes_pair [simp]:
  "exit_closes c (out, r) = (close_calls (serial_manager r) = (if exits out then Suc c else c))"
  by (simp add: exit_closes_def)

lemma exit_closes_bind:
  assumes "exit_closes c m"
    and "\<And>x s. close_calls (serial_manager s) = c \<Longrightarrow> exit_closes c (f x s)"
  shows "exit_closes c (bind m f)"
proof (cases m)
  case (Pair out s)
  show ?thesis
  proof (cases out)
    case (Return x)
    with Pair assms(1) have "close_calls (serial_manager s) = c" by simp
    from assms(2) [OF this] show ?thesis by (simp add: Pair Return)
  next
    case (Raise e)
    with Pair assms(1) show ?thesis by simp
  next
    case Still_polling
    with Pair assms(1) show ?thesis by simp
  qed
qed

lemma exit_closes_safety_loop:
  "exit_closes (close_calls (serial_manager r)) (safety_loop ticks r)"
  using safety_loop_outcomes [of ticks r]
  by (auto simp add: exit_closes_def safety_loop_close_calls)

lemma exit_closes_failure_handler:
  "exit_closes (close_calls (serial_manager r)) (handle_movement_failure ticks r)"
  using exit_closes_safety_loop [of "send_message ''safety_service'' No_payload
          (log_record ERROR Executing_security_protocol r)" ticks]
  by (simp add: handle_movement_failure_def)

lemma exit_closes_movement_loop:
  "exit_closes (close_calls (serial_manager r)) (movement_loop i conf ticks tag plan r)"
proof (induction plan arbitrary: i r)
  case Nil
  then show ?case by simp
next
  case (Cons mv plan)
  show ?case
  proof (cases "conf i = Completed")
    case True
    with Cons.IH [of "log_record INFO (Movement_completed (joint mv))
        (snd (wait_for_confirmation (joint mv) (conf i)
           (send_message tag (Step mv) (reset_state (joint mv)
              (log_record INFO (Movement (joint mv)) r)))))" "Suc i"]
    show ?thesis by (simp add: Let_def split_def)
  next
    case False
    let ?R = "log_record ERROR (Error_in_movement (Movement_failed (joint mv)))
        (snd (wait_for_confirmation (joint mv) (conf i)
           (send_message tag (Step mv) (reset_state (joint mv)
              (log_record INFO (Movement (joint mv)) r)))))"
    have "exit_closes (close_calls (serial_manager r))
        (bind (handle_movement_failure ticks ?R) (\<lambda>u r5. (Raise (Movement_failed (joint mv)), r5)))"
      using exit_closes_failure_handler [of ?R ticks]
      by (intro exit_closes_bind) simp_all
    with False show ?thesis by (simp add: Let_def split_def)
  qed
qed

lemma exit_closes_execute_movement:
  "exit_closes (close_calls (serial_manager r)) (execute_movement conf ticks tag plan r)"
  using exit_closes_movement_loop [of "log_record INFO Execution_movements r"]
  by (simp add: execute_movement_def)

lemma exit_closes_catch:
  "exit_closes c m \<Longrightarrow> exit_closes c (catch_Exception d m)"
  by (cases m; cases "fst m") (auto simp add: catch_Exception_def)

lemma exit_closes_pick:
  "exit_closes (close_calls (serial_manager r)) (execute_pick_sequence conf ticks x r)"
  by (simp add: execute_pick_sequence_def exit_closes_catch exit_closes_execute_movement)

lemma exit_closes_place:
  "exit_closes (close_calls (serial_manager r)) (execute_place_sequence conf ticks x r)"
  by (simp add: execute_place_sequence_def exit_closes_catch exit_closes_execute_movement)

lemma print_objects_no_exit: "\<not> exits (fst (print_objects objs r))"
  by (induction objs r rule: print_objects.induct) simp_all

lemma next_with_index_no_exit: "\<not> exits (next_with_index n objs)"
  by (induction n objs rule: next_with_index.induct) simp_all

lemma select_no_exit: "\<not> exits (fst (select_object_interactively typed r))"
  using print_objects_no_exit [of "scan_results r" "print Objects_detected_list r"]
    next_with_index_no_exit
  by (cases "print_objects (scan_results r) (print Objects_detected_list r)";
      cases "fst (print_objects (scan_results r) (print Objects_detected_list r))")
     (auto simp add: select_object_interactively_def Let_def split: option.splits)

lemma exit_closes_select:
  "exit_closes (close_calls (serial_manager r)) (select_object_interactively typed r)"
  using select_no_exit [of typed r] by (simp add: exit_closes_def)

lemma exit_closes_pick_place:
  "exit_closes (close_calls (serial_manager r)) (handle_pick_place_command typed pc plc ticks r)"
proof (cases "scan_results r = []")
  case True
  then show ?thesis by (simp add: pick_place_empty)
next
  case False
  show ?thesis
    unfolding handle_pick_place_command_def using False
    apply simp
    apply (rule exit_closes_bind [OF exit_closes_select])
    apply (simp split: option.splits)
    apply (intro allI impI)
    apply (rule exit_closes_bind)
     apply (use exit_closes_pick in \<open>simp add: exit_closes_def\<close>)
    apply (simp)
    apply (intro impI)
    apply (rule exit_closes_bind)
     apply (use exit_closes_place in \<open>simp add: exit_closes_def\<close>)
    apply simp
    done
qed

lemma exit_closes_scan:
  "exit_closes (close_calls (serial_manager r)) (handle_scan_command es sig late r)"
  by (simp add: exit_closes_def handle_scan_command_returns)

lemma exit_closes_menu:
  "exit_closes (close_calls (serial_manager r)) (main_menu_loop ws r)"
proof (induction ws arbitrary: r)
  case Nil
  then show ?case by simp
next
  case (Cons w ws)
  let ?r0 = "deliver_detections (idle_detections w) (print Main_menu r)"
  have c0: "close_calls (serial_manager ?r0) = close_calls (serial_manager r)" by simp
  have scan: "exit_closes (close_calls (serial_manager r))
      (bind (handle_scan_command (detections w) (scan_signalled w) (late_arrivals w) ?r0)
         (\<lambda>u r1. main_menu_loop ws r1))"
  proof (rule exit_closes_bind)
    show "exit_closes (close_calls (serial_manager r))
        (handle_scan_command (detections w) (scan_signalled w) (late_arrivals w) ?r0)"
      using exit_closes_scan [of ?r0] by simp
    fix x :: unit and s :: robot
    assume "close_calls (serial_manager s) = close_calls (serial_manager r)"
    then show "exit_closes (close_calls (serial_manager r)) (main_menu_loop ws s)"
      using Cons.IH [of s] by simp
  qed
  have pick: "exit_closes (close_calls (serial_manager r))
      (bind (handle_pick_place_command (typed_selection w) (pick_confirmations w)
                   (place_confirmations w) (safety_ticks w) ?r0)
         (\<lambda>u r1. main_menu_loop ws r1))"
  proof (rule exit_closes_bind)
    show "exit_closes (close_calls (serial_manager r))
        (handle_pick_place_command (typed_selection w) (pick_confirmations w)
                   (place_confirmations w) (safety_ticks w) ?r0)"
      using exit_closes_pick_place [of ?r0] by simp
    fix x :: unit and s :: robot
    assume "close_calls (serial_manager s) = close_calls (serial_manager r)"
    then show "exit_closes (close_calls (serial_manager r)) (main_menu_loop ws s)"
      using Cons.IH [of s] by simp
  qed
  have c: "exit_closes (close_calls (serial_manager r))
      (main_menu_loop ws (send_message ''check_service'' No_payload ?r0))"
    using Cons.IH [of "send_message ''check_service'' No_payload ?r0"] by simp
  have s: "exit_closes (close_calls (serial_manager r))
      (main_menu_loop ws (send_message ''safety_service'' No_payload ?r0))"
    using Cons.IH [of "send_message ''safety_service'' No_payload ?r0"] by simp
  have u: "exit_closes (close_calls (serial_manager r))
      (main_menu_loop ws (print Command_unrecognized ?r0))"
    using Cons.IH [of "print Command_unrecognized ?r0"] by simp
  show ?case
    using scan pick c s u by (simp add: Let_def)
qed

lemma run_outcome:
  "fst (run link_up ws r) =
     (if link_up then fst (main_menu_loop ws (log_record INFO Connected_to_brain r))
      else Return ())"
  by (cases "main_menu_loop ws (log_record INFO Connected_to_brain r)";
      cases "fst (main_menu_loop ws (log_record INFO Connected_to_brain r))")
     (auto simp add: run_def)

lemma run_close_calls:
  "close_calls (serial_manager (snd (run link_up ws r))) =
     (if fst (run link_up ws r) = Still_polling then close_calls (serial_manager r)
      else if exits (fst (run link_up ws r)) then close_calls (serial_manager r) + 2
      else close_calls (serial_manager r) + 1)"
  using exit_closes_menu [of "log_record INFO Connected_to_brain r" ws]
  by (cases "main_menu_loop ws (log_record INFO Connected_to_brain r)";
      cases "fst (main_menu_loop ws (log_record INFO Connected_to_brain r))")
     (auto simp add: run_def)

lemma pick_place_pick_fatal:
  assumes "scan_results r = map Item items"
    and "find (\<lambda>x. index x = n) items = Some x" and "n \<noteq> 0"
    and "k < 4" and "\<forall>j < k. pick_conf j = Completed" and "pick_conf k \<noteq> Completed"
    and "\<not> completed_before_deadline (safety_status (serial_manager r)) ticks"
    and "deadline_read ticks"
  shows "fst (handle_pick_place_command (Some n) pick_conf place_conf ticks r) =
           Raise (SystemExit 1)"
proof -
  have ne: "scan_results r \<noteq> []"
    using assms(1,2) by (cases items) auto
  have s: "fst (select_object_interactively (Some n) r) = Return (Some x)"
    using select_items [OF assms(1), of "Some n"] assms(2,3) by simp
  have k: "k < length (pick_plan x)"
    using assms(4) by (simp add: pick_plan_def)
  note f = execute_movement_failure [OF k assms(5,6)]
  show ?thesis
    using assms(7,8)
    by (simp add: pick_place_unfold [OF ne] s bind_fst execute_pick_sequence_def catch_Exception_fst f)
qed

lemma fatal_run:
  "fst (run True [fatal_world] scenario_robot) = Raise (SystemExit 1)"
proof -
  let ?r0 = "deliver_detections [] (print Main_menu (log_record INFO Connected_to_brain scenario_robot))"
  have a: "scan_results ?r0 = map Item scenario_items"
    by (simp add: deliver_detections_def scenario_catalog)
  have b: "find (\<lambda>x. index x = 1) scenario_items = Some (hd scenario_items)"
    by (simp add: scenario_items_def)
  have c: "\<not> completed_before_deadline (safety_status (serial_manager ?r0)) no_recovery_ticks"
    by (simp add: scenario_transport no_recovery_never_completed)
  have "fst (handle_pick_place_command (Some 1) gripper_never_confirms always_confirms
      no_recovery_ticks ?r0) = Raise (SystemExit 1)"
    by (rule pick_place_pick_fatal [OF a b _ _ gripper_fails(2,3) c deadline_at_15]) simp_all
  then show ?thesis
    by (simp add: run_outcome fatal_world_def Let_def bind_fst)
qed

theorem fatal_run_closes_twice_counterexample:
  "fst (run True [fatal_world] scenario_robot) = Raise (SystemExit 1)
   \<and> close_calls (serial_manager scenario_robot) = 0
   \<and> close_calls (serial_manager (snd (run True [fatal_world] scenario_robot))) = 2"
  using run_close_calls [of True "[fatal_world]" scenario_robot]
  by (simp add: fatal_run scenario_transport)

text \<open>
  Claim C1, amended. The failure handler sends one safety request and returns exactly
  when a completed safety status is observed strictly before the deadline, and then it
  does not close the transport. When the deadline is read first, it closes the transport
  once itself and exits with status 1; there is no second safety request. The exit passes
  through the \<open>finally\<close> clause of \<open>run\<close>, which closes the transport again: a run
  that ends by this exit has called \<open>close\<close> twice.
\<close>

theorem safety_recovery_outcome:
  "(fst (handle_movement_failure ticks r) = Return () \<longleftrightarrow>
      completed_before_deadline (safety_status (serial_manager r)) ticks)
   \<and> (completed_before_deadline (safety_status (serial_manager r)) ticks \<longrightarrow>
        close_calls (serial_manager (snd (handle_movement_failure ticks r))) =
          close_calls (serial_manager r))
   \<and> (\<not> completed_before_deadline (safety_status (serial_manager r)) ticks
        \<and> deadline_read ticks \<longrightarrow>
        fst (handle_movement_failure ticks r) = Raise (SystemExit 1)
        \<and> close_calls (serial_manager (snd (handle_movement_failure ticks r))) =
            Suc (close_calls (serial_manager r)))
   \<and> sent (serial_manager (snd (handle_movement_failure ticks r))) =
        sent (serial_manager r) @ [(''safety_service'', No_payload)]
   \<and> (exits (fst (run link_up ws s)) \<longrightarrow>
        close_calls (serial_manager (snd (run link_up ws s))) =
          close_calls (serial_manager s) + 2)"
proof (intro conjI impI)
  show "fst (handle_movement_failure ticks r) = Return () \<longleftrightarrow>
      completed_before_deadline (safety_status (serial_manager r)) ticks"
    by (rule failure_handler_Return_iff)
  show "close_calls (serial_manager (snd (handle_movement_failure ticks r))) =
          close_calls (serial_manager r)"
    if "completed_before_deadline (safety_status (serial_manager r)) ticks"
    using that by (simp add: failure_handler_close_calls failure_handler_outcome)
  show "sent (serial_manager (snd (handle_movement_failure ticks r))) =
        sent (serial_manager r) @ [(''safety_service'', No_payload)]"
    by simp
  show "close_calls (serial_manager (snd (run link_up ws s))) =
          close_calls (serial_manager s) + 2" if "exits (fst (run link_up ws s))"
    using that run_close_calls [of link_up ws s] by auto
next
  assume a: "\<not> completed_before_deadline (safety_status (serial_manager r)) ticks
        \<and> deadline_read ticks"
  then show "fst (handle_movement_failure ticks r) = Raise (SystemExit 1)"
    by (simp add: failure_handler_outcome)
  from a show "close_calls (serial_manager (snd (handle_movement_failure ticks r))) =
            Suc (close_calls (serial_manager r))"
    by (simp add: failure_handler_close_calls failure_handler_outcome)
qed

theorem safety_recovery_outcome_witness:
  "completed_before_deadline (safety_status (serial_manager scenario_robot)) recovery_ticks
   \<and> fst (handle_movement_failure recovery_ticks scenario_robot) = Return ()
   \<and> \<not> completed_before_deadline (safety_status (serial_manager scenario_robot)) no_recovery_ticks
   \<and> deadline_read no_recovery_ticks
   \<and> fst (handle_movement_failure no_recovery_ticks scenario_robot) = Raise (SystemExit 1)
   \<and> close_calls (serial_manager (snd (handle_movement_failure no_recovery_ticks scenario_robot))) = 1
   \<and> exits (fst (run True [fatal_world] scenario_robot))
   \<and> close_calls (serial_manager (snd (run True [fatal_world] scenario_robot))) = 2"
proof -
  have a: "completed_before_deadline (safety_status (serial_manager scenario_robot)) recovery_ticks"
    by (simp add: scenario_transport recovery_completed_at_10)
  have b: "\<not> completed_before_deadline (safety_status (serial_manager scenario_robot)) no_recovery_ticks"
    by (simp add: scenario_transport no_recovery_never_completed)
  have c: "exits (fst (run True [fatal_world] scenario_robot))"
    by (simp add: fatal_run)
  note lower_Apple = safety_recovery_outcome [of recovery_ticks scenario_robot True "[fatal_world]"
      scenario_robot]
  note t2 = safety_recovery_outcome [of no_recovery_ticks scenario_robot True "[fatal_world]"
      scenario_robot]
  from lower_Apple a have "fst (handle_movement_failure recovery_ticks scenario_robot) = Return ()"
    by blast
  moreover from t2 b deadline_at_15
  have "fst (handle_movement_failure no_recovery_ticks scenario_robot) = Raise (SystemExit 1)"
    and "close_calls (serial_manager (snd (handle_movement_failure no_recovery_ticks scenario_robot))) = 1"
    by (simp_all add: scenario_transport)
  moreover from t2 c
  have "close_calls (serial_manager (snd (run True [fatal_world] scenario_robot))) = 2"
    by (simp add: scenario_transport)
  ultimately show ?thesis
    using a b c deadline_at_15 by blast
qed

lemma scan_timed_out:
  assumes "placement_zones r ''default'' \<noteq> None"
    and "\<not> scan_complete_event (serial_manager r)"
  shows "scan_results (snd (handle_scan_command events False late r)) =
      map Provisional (recorded (placement_zones r) (events @ before_unsubscribe late))"
    and "(ERROR, Scanning_timeout) \<in> set (logged (snd (handle_scan_command events False late r)))"
  using assms
  by (simp_all add: handle_scan_command_def wait_scan_complete_def Let_def
      deliver_all_scan_results recorded_append)

lemma init_flag: "\<not> scan_complete_event (serial_manager (robot_init fresh_transport))"
  by (simp add: robot_init_def fresh_transport_def)

lemma timed_out_results:
  "scan_results timed_out_robot =
     [Provisional (make_provisional (scenario_events ! 0) \<lparr>angle = 90, distance = 200\<rparr>),
      Provisional (make_provisional (scenario_events ! 2) \<lparr>angle = 270, distance = 200\<rparr>)]"
  unfolding timed_out_robot_def scan_timed_out(1) [OF init_default init_flag]
  by (simp add: init_zones recorded_scenario nothing_late_def)

text \<open>
  Claim C3, at a scan that times out after two classified detections. The command
  returns, logs the timeout and removes the subscription, but the two provisional records
  stay in \<open>scan_results\<close>: the list is neither emptied nor finalized. A pick and place
  command issued next finds the list non-empty and raises \<open>KeyError\<close> while listing it.
\<close>

theorem scan_timeout_keeps_partial_results:
  "fst (handle_scan_command scenario_events False nothing_late (robot_init fresh_transport)) =
     Return ()
   \<and> (ERROR, Scanning_timeout) \<in> set (logged timed_out_robot)
   \<and> callbacks (serial_manager timed_out_robot) ''scan_service'' = None
   \<and> scan_results timed_out_robot =
       [Provisional (make_provisional (scenario_events ! 0) \<lparr>angle = 90, distance = 200\<rparr>),
        Provisional (make_provisional (scenario_events ! 2) \<lparr>angle = 270, distance = 200\<rparr>)]
   \<and> fst (handle_pick_place_command (Some 1) always_confirms always_confirms []
         timed_out_robot) = Raise (KeyError ''index'')"
proof -
  have "(ERROR, Scanning_timeout) \<in> set (logged timed_out_robot)"
    unfolding timed_out_robot_def by (rule scan_timed_out(2) [OF init_default init_flag])
  moreover have "callbacks (serial_manager timed_out_robot) ''scan_service'' = None"
    by (simp add: timed_out_robot_def handle_scan_command_unsubscribes)
  moreover have "fst (handle_pick_place_command (Some 1) always_confirms always_confirms []
         timed_out_robot) = Raise (KeyError ''index'')"
    by (simp add: handle_pick_place_command_def select_object_interactively_def
        timed_out_results)
  ultimately show ?thesis
    by (simp add: handle_scan_command_returns timed_out_results)
qed

lemma pick_place_sequence_callbacks [simp]:
  "callbacks (serial_manager (snd (execute_pick_sequence conf ticks x r))) =
     callbacks (serial_manager r)"
  "callbacks (serial_manager (snd (execute_place_sequence conf ticks x r))) =
     callbacks (serial_manager r)"
  by (simp_all add: execute_pick_sequence_def execute_place_sequence_def)











end
